theory Spec2Isabelle
  imports Main
begin

section \<open>The gateway client of ether-portal-web (js/gateway.js)\<close>

text \<open>
  The class \<open>GatewayClient\<close> is embedded as a record of its fields, extended by the part of
  the browser it talks to: the clock, the WebSocket objects it created, the armed timers,
  the promises it settled, the local storage and the registered event handlers' calls.
  Every method is a function from state to state; a method that returns a promise returns
  the promise's identity beside the new state. The browser runs one task at a time
  (a method call, a socket event, a timer), then the promise reactions that became ready:
  \<open>step\<close> is one such task.

  An event handler is an identity. What it does when \<open>emit\<close> calls it is given by the
  browser: the subscriptions it changes, by \<open>on\<close> and \<open>off\<close> (or by the closure that
  \<open>on\<close> returned), and whether it then throws. \<open>emit\<close> iterates the live \<open>Set\<close> of
  handlers as \<open>Set.prototype.forEach\<close> does, so these changes take effect during the
  emit. An iteration that handlers keep extending never returns; the model follows an
  iteration for \<open>fuel\<close> entries, a number fixed for the run, and sets \<open>overrun\<close> when it
  cuts one short: from then on the state is no state of the code, which is still inside
  that \<open>emit\<close>.

  Limits of the model. Calls of the other methods (\<open>send\<close>, \<open>connect\<close>, \<open>disconnect\<close>,
  \<open>emit\<close>) from inside a handler are not modelled as nested calls: in a run they can
  only be tasks of their own, so the runs below are those of handlers that make such
  calls, if at all, outside the emit. Console output, the canvas fingerprint and
  \<open>hashCode\<close> are left out (the generated device id is a parameter of the browser).
  A JSON number is an integer \<open>n\<close> with \<open>|n| \<le> 2^53\<close>, where \<open>JSON.parse\<close> is exact and
  \<open>String\<close> prints every digit; other numbers are outside the model. The client only
  tests numbers for truthiness and renders them. The parameters of \<open>send\<close> are JSON
  values, so that \<open>JSON.stringify\<close> does not throw.
\<close>

subsection \<open>JSON values and the JavaScript operators used on them\<close>

datatype json =
    JUndefined
  | JNull
  | JBool bool
  | JNum int
  | JStr string
  | JArr "json list"
  | JObj "(string \<times> json) list"

text \<open>Truthiness, as \<open>if (x)\<close>, \<open>!x\<close>, \<open>x && y\<close> and \<open>x || y\<close> test it.\<close>

fun truthy :: "json \<Rightarrow> bool" where
  "truthy JUndefined = False"
| "truthy JNull = False"
| "truthy (JBool b) = b"
| "truthy (JNum n) = (n \<noteq> 0)"
| "truthy (JStr s) = (s \<noteq> [])"
| "truthy (JArr xs) = True"
| "truthy (JObj kvs) = True"

definition nullish :: "json \<Rightarrow> bool" where
  "nullish j = (j = JUndefined \<or> j = JNull)"

text \<open>
  \<open>getp j k\<close> is \<open>j?.k\<close>, and \<open>j.k\<close> where \<open>j\<close> is neither null nor undefined (there
  \<open>j.k\<close> throws a TypeError, which every caller below tests first). The names read by the
  client are no built-in property of a string, number, boolean or array.
\<close>

fun getp :: "json \<Rightarrow> string \<Rightarrow> json" where
  "getp (JObj kvs) k = (case map_of kvs k of Some v \<Rightarrow> v | None \<Rightarrow> JUndefined)"
| "getp j k = JUndefined"

definition jor :: "json \<Rightarrow> json \<Rightarrow> json" where
  "jor a b = (if truthy a then a else b)"

subsection \<open>Decimal rendering of numbers in template strings\<close>

definition digit_char :: "nat \<Rightarrow> char" where
  "digit_char d = ''0123456789'' ! (d mod 10)"

function show_nat :: "nat \<Rightarrow> string" where
  "show_nat n = (if n < 10 then [digit_char n] else show_nat (n div 10) @ [digit_char (n mod 10)])"
  by pat_completeness auto
termination
  by (relation "measure (\<lambda>n. n)") auto

declare show_nat.simps [simp del]

subsection \<open>Data\<close>

datatype readyState = CONNECTING | OPEN | CLOSING | CLOSED

text \<open>
  Promises are identities, numbered as they are created; the tag tells which method created
  the promise. The \<open>resolve\<close> and \<open>reject\<close> of a promise of \<open>connect\<close> are held only by
  that call's socket handlers and connection timeout, those of a promise of \<open>send\<close> only
  by its entry of \<open>pendingRequests\<close> and its request timeout: each of these stores the
  promise's number.
\<close>

datatype prom = ConnectP nat | SendP nat

text \<open>An \<open>Error\<close> object: its message (\<open>new Error(x)\<close> stores \<open>String(x)\<close>) and its
  \<open>code\<close> property, \<open>JUndefined\<close> when none was assigned.\<close>

datatype jserror = Error (message: string) (code: json)

datatype outcome = Resolved json | Rejected jserror

text \<open>An entry of \<open>pendingRequests\<close>: the callbacks of a \<open>send\<close> promise, or the no-op pair
  that \<open>sendConnectRequest\<close> registers.\<close>

datatype callbacks = Callbacks nat | NoOps

datatype timer_cb =
    ConnectTimeout nat
  | RequestTimeout string nat
  | PingInterval
  | ReconnectTimeout

record timer =
  callback :: timer_cb
  delay :: nat
  repeating :: bool
  due :: nat

datatype close_args = NoArgs | CodeReason nat string

record socket =
  url :: string
  readyState :: readyState
  sockPromise :: nat
  sockTimeout :: nat
  closeCalls :: "close_args list"
  sent :: "json list"

record config =
  host :: string
  port :: nat
  token :: string
  useTls :: bool

record config_patch =
  p_host :: "string option"
  p_port :: "nat option"
  p_token :: "string option"
  p_useTls :: "bool option"

record browser =
  userAgent :: string
  language :: string
  platform :: string
  generatedDeviceId :: string

text \<open>What a handler is called with: \<open>data\<close>, or \<open>{ event, data }\<close> for a wildcard handler;
  and what a handler may do to the subscriptions: \<open>on(event, h)\<close> and \<open>off(event, h)\<close>.\<close>

datatype harg = Plain json | Wild json json

datatype sub_op = Subscribe string nat | Unsubscribe string nat

record client =
  ws :: "nat option"
  config :: config
  connected :: bool
  requestId :: nat
  pendingRequests :: "string \<rightharpoonup> callbacks"
  eventHandlers :: "string \<rightharpoonup> nat option list"
  reconnectTimer :: "nat option"
  pingInterval :: "nat option"
  lastPong :: "nat option"
  connectionAttempts :: nat
  maxReconnectAttempts :: nat
  challengeNonce :: json
  deviceId :: "string option"
  connectPromise :: "nat option"

text \<open>
  The browser side. \<open>settles\<close> lists every call of a promise's \<open>resolve\<close> or \<open>reject\<close> in
  order (only the first call for a promise settles it); \<open>emitted\<close> lists the calls of
  \<open>emit\<close>, \<open>invoked\<close> the handler calls and \<open>reported\<close> the handler calls that threw;
  \<open>reactions\<close> holds the promises whose rejection runs \<open>scheduleReconnect\<close> (the
  \<open>.catch\<close> in the reconnect timer). Timer identities start at 1, so a stored identity is
  truthy, as in a browser. A \<open>Set\<close> of handlers is the list of its entries in insertion
  order, where a deleted entry leaves an empty slot (\<open>None\<close>), as ECMAScript specifies it.
  \<open>handlerOps\<close> and \<open>handlerThrows\<close> tell what a handler does when it is called.
\<close>

record state = client +
  now :: nat
  sockets :: "nat \<Rightarrow> socket"
  nextSock :: nat
  timers :: "nat \<rightharpoonup> timer"
  nextTimer :: nat
  settles :: "(prom \<times> outcome) list"
  nextProm :: nat
  reactions :: "nat list"
  localStorage :: "string \<rightharpoonup> string"
  emitted :: "(json \<times> json) list"
  invoked :: "(nat \<times> harg) list"
  reported :: "(nat \<times> harg) list"
  handlerOps :: "nat \<Rightarrow> harg \<Rightarrow> sub_op list"
  handlerThrows :: "nat \<Rightarrow> harg \<Rightarrow> bool"
  fuel :: nat
  overrun :: bool
  ctorThrows :: "string \<Rightarrow> bool"
  browser :: browser


subsection \<open>String conversion\<close>

text \<open>\<open>String(x)\<close>, as \<open>new Error(x)\<close> and \<open>localStorage.setItem(k, x)\<close> apply it. A number
  is printed in full, which is what \<open>String\<close> does for the integers up to \<open>2^53\<close>.\<close>

fun show_int :: "int \<Rightarrow> string" where
  "show_int i = (if i < 0 then CHR ''-'' # show_nat (nat (- i)) else show_nat (nat i))"

fun join_comma :: "string list \<Rightarrow> string" where
  "join_comma [] = []"
| "join_comma [x] = x"
| "join_comma (x # y # zs) = x @ CHR '','' # join_comma (y # zs)"

fun js_string :: "json \<Rightarrow> string" where
  "js_string JUndefined = ''undefined''"
| "js_string JNull = ''null''"
| "js_string (JBool b) = (if b then ''true'' else ''false'')"
| "js_string (JNum n) = show_int n"
| "js_string (JStr s) = s"
| "js_string (JArr xs) =
     join_comma (map (\<lambda>x. if x = JUndefined \<or> x = JNull then [] else js_string x) xs)"
| "js_string (JObj kvs) = ''[object Object]''"

subsection \<open>The browser's primitives\<close>

definition settle :: "prom \<Rightarrow> outcome \<Rightarrow> state \<Rightarrow> state" where
  "settle p r s = s\<lparr>settles := settles s @ [(p, r)]\<rparr>"

text \<open>The state of a promise is the first call of its \<open>resolve\<close> or \<open>reject\<close>.\<close>

definition promiseState :: "state \<Rightarrow> prom \<Rightarrow> outcome option" where
  "promiseState s p = map_of (settles s) p"

definition setTimer :: "timer_cb \<Rightarrow> nat \<Rightarrow> bool \<Rightarrow> state \<Rightarrow> nat \<times> state" where
  "setTimer cb ms rep s =
     (nextTimer s,
      s\<lparr>timers := (timers s)(nextTimer s \<mapsto>
            \<lparr>callback = cb, delay = ms, repeating = rep, due = now s + ms\<rparr>),
        nextTimer := Suc (nextTimer s)\<rparr>)"

definition clearTimer :: "nat \<Rightarrow> state \<Rightarrow> state" where
  "clearTimer t s = s\<lparr>timers := (timers s)(t := None)\<rparr>"

text \<open>\<open>WebSocket.close\<close>: a socket that is connecting or open starts closing; the close
  event comes later, as a task of its own.\<close>

definition ws_close :: "nat \<Rightarrow> close_args \<Rightarrow> state \<Rightarrow> state" where
  "ws_close k a s =
     (let sk = sockets s k in
      s\<lparr>sockets := (sockets s)(k := sk\<lparr>
          readyState := (if readyState sk = CONNECTING \<or> readyState sk = OPEN
                         then CLOSING else readyState sk),
          closeCalls := closeCalls sk @ [a]\<rparr>)\<rparr>)"

text \<open>
  \<open>this.ws.send(text)\<close>: transmits on an open socket and drops the data on a closing or
  closed one. With no socket, or a connecting one, it throws. \<open>send\<close> and the heartbeat
  call it on an open socket only; in \<open>sendConnectRequest\<close> the call is the last statement
  and the exception is caught by \<open>onmessage\<close>, so that the throw leaves the state as it is.
\<close>

definition ws_send :: "json \<Rightarrow> state \<Rightarrow> state" where
  "ws_send msg s =
     (case ws s of
        None \<Rightarrow> s
      | Some k \<Rightarrow>
          (let sk = sockets s k in
           if readyState sk = OPEN
           then s\<lparr>sockets := (sockets s)(k := sk\<lparr>sent := sent sk @ [msg]\<rparr>)\<rparr>
           else s))"

subsection \<open>configure, getWsUrl, getDeviceId, nextId\<close>

definition configure :: "config_patch \<Rightarrow> state \<Rightarrow> state" where
  "configure c s =
     s\<lparr>config := \<lparr>
        host = (case p_host c of Some h \<Rightarrow> h | None \<Rightarrow> host (config s)),
        port = (case p_port c of Some n \<Rightarrow> n | None \<Rightarrow> port (config s)),
        token = (case p_token c of Some t \<Rightarrow> t | None \<Rightarrow> token (config s)),
        useTls = (case p_useTls c of Some b \<Rightarrow> b | None \<Rightarrow> useTls (config s))\<rparr>\<rparr>"

definition getWsUrl :: "state \<Rightarrow> string" where
  "getWsUrl s =
     (if useTls (config s) then ''wss'' else ''ws'') @ ''://'' @ host (config s) @ '':''
       @ show_nat (port (config s)) @ ''/ws''"

definition getDeviceId :: "state \<Rightarrow> string \<times> state" where
  "getDeviceId s =
     (if (case deviceId s of Some d \<Rightarrow> d \<noteq> [] | None \<Rightarrow> False) then (the (deviceId s), s)
      else
        (let stored = localStorage s ''ether-portal-device-id'' in
         if (case stored of Some v \<Rightarrow> v \<noteq> [] | None \<Rightarrow> False)
         then (the stored, s\<lparr>deviceId := stored\<rparr>)
         else
           (let v = generatedDeviceId (browser s) in
            (v, s\<lparr>deviceId := Some v,
                  localStorage := (localStorage s)(''ether-portal-device-id'' \<mapsto> v)\<rparr>))))"

definition nextId :: "state \<Rightarrow> string \<times> state" where
  "nextId s =
     (''req_'' @ show_nat (Suc (requestId s)) @ ''_'' @ show_nat (now s),
      s\<lparr>requestId := Suc (requestId s)\<rparr>)"

subsection \<open>on, off, emit\<close>

text \<open>The entries of the \<open>Set\<close> of an event (none when the event has no \<open>Set\<close> yet).
  \<open>Set.prototype.add\<close> appends a value that is not in the set; \<open>Set.prototype.delete\<close>
  empties the slot of a value.\<close>

definition slots :: "state \<Rightarrow> string \<Rightarrow> nat option list" where
  "slots s ev = (case eventHandlers s ev of None \<Rightarrow> [] | Some xs \<Rightarrow> xs)"

definition set_add :: "nat option list \<Rightarrow> nat \<Rightarrow> nat option list" where
  "set_add xs h = (if Some h \<in> set xs then xs else xs @ [Some h])"

definition set_delete :: "nat option list \<Rightarrow> nat \<Rightarrow> nat option list" where
  "set_delete xs h = map (\<lambda>x. if x = Some h then None else x) xs"

definition on :: "string \<Rightarrow> nat \<Rightarrow> state \<Rightarrow> state" where
  "on ev h s = s\<lparr>eventHandlers := (eventHandlers s)(ev \<mapsto> set_add (slots s ev) h)\<rparr>"

definition off :: "string \<Rightarrow> nat \<Rightarrow> state \<Rightarrow> state" where
  "off ev h s =
     (case eventHandlers s ev of
        None \<Rightarrow> s
      | Some xs \<Rightarrow> s\<lparr>eventHandlers := (eventHandlers s)(ev \<mapsto> set_delete xs h)\<rparr>)"

text \<open>One handler call inside \<open>try { handler(arg) } catch (e) { console.error(...) }\<close>:
  the handler changes the subscriptions, then returns or throws.\<close>

definition perform :: "sub_op \<Rightarrow> state \<Rightarrow> state" where
  "perform op s = (case op of Subscribe ev h \<Rightarrow> on ev h s | Unsubscribe ev h \<Rightarrow> off ev h s)"

definition invoke :: "harg \<Rightarrow> nat \<Rightarrow> state \<Rightarrow> state" where
  "invoke a h s =
     (let s1 = s\<lparr>invoked := invoked s @ [(h, a)]\<rparr>;
          s2 = fold perform (handlerOps s h a) s1
      in if handlerThrows s h a then s2\<lparr>reported := reported s2 @ [(h, a)]\<rparr> else s2)"

text \<open>
  \<open>handlers.forEach(...)\<close> on the \<open>Set\<close> of the event \<open>ev\<close>, from the entry \<open>i\<close> on: the
  entries are visited by their index in the live list, an empty slot is skipped, and the
  iteration ends at the end of the list as it then is. The first argument is the fuel.
\<close>

fun forEach :: "nat \<Rightarrow> string \<Rightarrow> nat \<Rightarrow> harg \<Rightarrow> state \<Rightarrow> state" where
  "forEach 0 ev i a s = (if i < length (slots s ev) then s\<lparr>overrun := True\<rparr> else s)"
| "forEach (Suc n) ev i a s =
     (if i < length (slots s ev)
      then forEach n ev (Suc i) a
             (case slots s ev ! i of None \<Rightarrow> s | Some h \<Rightarrow> invoke a h s)
      else s)"

text \<open>\<open>this.eventHandlers.get(event)\<close>: the keys are the strings given to \<open>on\<close>.\<close>

definition handlersFor :: "state \<Rightarrow> json \<Rightarrow> string option" where
  "handlersFor s ev =
     (case ev of
        JStr name \<Rightarrow> (if eventHandlers s name = None then None else Some name)
      | _ \<Rightarrow> None)"

definition emit :: "json \<Rightarrow> json \<Rightarrow> state \<Rightarrow> state" where
  "emit ev data s =
     (let s0 = s\<lparr>emitted := emitted s @ [(ev, data)]\<rparr>;
          s1 = (case handlersFor s0 ev of
                  Some name \<Rightarrow> forEach (fuel s0) name 0 (Plain data) s0
                | None \<Rightarrow> s0)
      in case eventHandlers s1 ''*'' of
           Some wild \<Rightarrow> forEach (fuel s1) ''*'' 0 (Wild ev data) s1
         | None \<Rightarrow> s1)"


subsection \<open>The heartbeat\<close>

definition stopPing :: "state \<Rightarrow> state" where
  "stopPing s =
     (case pingInterval s of
        None \<Rightarrow> s
      | Some t \<Rightarrow> (clearTimer t s)\<lparr>pingInterval := None\<rparr>)"

definition startPing :: "state \<Rightarrow> state" where
  "startPing s =
     (let s1 = stopPing s;
          s2 = s1\<lparr>lastPong := Some (now s1)\<rparr>;
          (t, s3) = setTimer PingInterval 25000 True s2
      in s3\<lparr>pingInterval := Some t\<rparr>)"

text \<open>The callback of the interval. \<open>this.lastPong && ...\<close> tests the time stamp for
  truthiness first.\<close>

definition pingTick :: "state \<Rightarrow> state" where
  "pingTick s =
     (case ws s of
        None \<Rightarrow> s
      | Some k \<Rightarrow>
          if readyState (sockets s k) = OPEN then
            (if (case lastPong s of Some t \<Rightarrow> t \<noteq> 0 \<and> now s - t > 60000 | None \<Rightarrow> False)
             then ws_close k (CodeReason 4000 ''Ping timeout'') s
             else ws_send (JObj [(''type'', JStr ''ping'')]) s)
          else s)"

subsection \<open>The handshake and inbound frames\<close>

definition connectRequest :: "string \<Rightarrow> string \<Rightarrow> json \<Rightarrow> browser \<Rightarrow> json" where
  "connectRequest rid dev auth b =
     JObj [(''type'', JStr ''req''), (''id'', JStr rid), (''method'', JStr ''connect''),
       (''params'', JObj [
          (''minProtocol'', JNum 3), (''maxProtocol'', JNum 3),
          (''client'', JObj [(''id'', JStr ''ether-portal-web''), (''version'', JStr ''1.1.0''),
                             (''platform'', JStr (platform b)), (''mode'', JStr ''ui'')]),
          (''device'', JObj [(''id'', JStr dev), (''displayName'', JStr ''Ether Portal Web'')]),
          (''role'', JStr ''operator''),
          (''scopes'', JArr [JStr ''operator.read'', JStr ''operator.write'']),
          (''caps'', JArr []), (''commands'', JArr []), (''permissions'', JObj []),
          (''auth'', auth),
          (''locale'', JStr (if language b \<noteq> [] then language b else ''en-US'')),
          (''userAgent'', JStr (''EtherPortal/1.1.0 ('' @ take 100 (userAgent b) @ '')''))])]"

definition sendConnectRequest :: "state \<Rightarrow> state" where
  "sendConnectRequest s =
     (let (dev, s1) = getDeviceId s;
          storedToken = localStorage s1 ''ether-portal-device-token'';
          auth = (if token (config s1) \<noteq> [] then JObj [(''token'', JStr (token (config s1)))]
                  else (case storedToken of
                          Some t \<Rightarrow> if t \<noteq> [] then JObj [(''deviceToken'', JStr t)] else JObj []
                        | None \<Rightarrow> JObj []));
          (rid, s2) = nextId s1;
          s3 = s2\<lparr>pendingRequests := (pendingRequests s2)(rid \<mapsto> NoOps)\<rparr>
      in ws_send (connectRequest rid dev auth (browser s3)) s3)"

text \<open>\<open>this.pendingRequests.get(data.id)\<close> and \<open>.delete(data.id)\<close>: the keys are strings.\<close>

definition pendingGet :: "state \<Rightarrow> json \<Rightarrow> callbacks option" where
  "pendingGet s j = (case j of JStr rid \<Rightarrow> pendingRequests s rid | _ \<Rightarrow> None)"

definition pendingDelete :: "json \<Rightarrow> state \<Rightarrow> state" where
  "pendingDelete j s =
     (case j of
        JStr rid \<Rightarrow> s\<lparr>pendingRequests := (pendingRequests s)(rid := None)\<rparr>
      | _ \<Rightarrow> s)"

definition callResolve :: "callbacks \<Rightarrow> json \<Rightarrow> state \<Rightarrow> state" where
  "callResolve cb v s =
     (case cb of Callbacks q \<Rightarrow> settle (SendP q) (Resolved v) s | NoOps \<Rightarrow> s)"

definition callReject :: "callbacks \<Rightarrow> jserror \<Rightarrow> state \<Rightarrow> state" where
  "callReject cb e s =
     (case cb of Callbacks q \<Rightarrow> settle (SendP q) (Rejected e) s | NoOps \<Rightarrow> s)"

text \<open>\<open>nonce?.slice(0, 16)\<close> is a call: a nonce that is not null and has no \<open>slice\<close>
  method (anything but a string or an array) makes it throw.\<close>

definition sliceThrows :: "json \<Rightarrow> bool" where
  "sliceThrows n = (case n of JUndefined \<Rightarrow> False | JNull \<Rightarrow> False | JStr x \<Rightarrow> False
                    | JArr xs \<Rightarrow> False | _ \<Rightarrow> True)"

text \<open>
  \<open>handleMessage(data, connectResolve, connectReject)\<close>; \<open>p\<close> is the promise of \<open>connect\<close> whose
  \<open>resolve\<close> and \<open>reject\<close> the socket's \<open>onmessage\<close> passes (they are never absent).
  An exception leaves \<open>handleMessage\<close> for the \<open>catch\<close> of \<open>onmessage\<close>, which logs it:
  \<open>data.type\<close> on \<open>null\<close>, and the \<open>slice\<close> call, both before any assignment.
\<close>

definition handleMessage :: "json \<Rightarrow> nat \<Rightarrow> state \<Rightarrow> state" where
  "handleMessage data p s =
     (let payload = getp data ''payload''; err = getp data ''error'' in
      if nullish data then s
      else if getp data ''type'' = JStr ''event'' \<and> getp data ''event'' = JStr ''connect.challenge''
      then
        (if sliceThrows (getp payload ''nonce'') then s
         else
           (let s1 = s\<lparr>challengeNonce := getp payload ''nonce''\<rparr>;
                s2 = emit (JStr ''challenge_received'') (JObj [(''nonce'', challengeNonce s1)]) s1
            in sendConnectRequest s2))
      else if getp data ''type'' = JStr ''res'' \<and> getp payload ''type'' = JStr ''hello-ok''
      then
        (let pending = pendingGet s (getp data ''id'');
             s1 = s\<lparr>connected := True, connectionAttempts := 0\<rparr>;
             tok = getp (getp payload ''auth'') ''deviceToken'';
             s2 = (if truthy tok
                   then s1\<lparr>localStorage :=
                          (localStorage s1)(''ether-portal-device-token'' \<mapsto> js_string tok)\<rparr>
                   else s1);
             s3 = startPing s2;
             s4 = emit (JStr ''connected'') (JObj [(''protocol'', getp payload ''protocol'')]) s3;
             s5 = (case pending of
                     Some cb \<Rightarrow> callResolve cb payload (pendingDelete (getp data ''id'') s4)
                   | None \<Rightarrow> s4)
         in settle (ConnectP p) (Resolved payload) s5)
      else if getp data ''type'' = JStr ''res'' \<and> \<not> truthy (getp data ''ok'') \<and> truthy err
      then
        (let pending = pendingGet s (getp data ''id'');
             errorMsg = jor (getp err ''message'')
                          (jor (getp err ''code'') (JStr ''Authentication failed''));
             s1 = (case pending of
                     Some cb \<Rightarrow>
                       callReject cb (Error (js_string errorMsg) JUndefined)
                         (pendingDelete (getp data ''id'') s)
                   | None \<Rightarrow> s)
         in settle (ConnectP p) (Rejected (Error (js_string errorMsg) JUndefined)) s1)
      else if getp data ''type'' = JStr ''res'' \<and> truthy (getp data ''id'')
              \<and> pendingGet s (getp data ''id'') \<noteq> None
      then
        (let cb = the (pendingGet s (getp data ''id''));
             s1 = pendingDelete (getp data ''id'') s
         in if truthy (getp data ''ok'') then callResolve cb payload s1
            else callReject cb
                   (Error (js_string (jor (getp err ''message'') (JStr ''Request failed'')))
                      (getp err ''code'')) s1)
      else if getp data ''type'' = JStr ''event''
      then
        (let s1 = emit (getp data ''event'') payload s in
         if getp data ''event'' = JStr ''cron.job.started'' then emit (JStr ''job_started'') payload s1
         else if getp data ''event'' = JStr ''cron.job.completed''
           then emit (JStr ''job_completed'') payload s1
         else if getp data ''event'' = JStr ''session.message''
           then emit (JStr ''session_message'') payload s1
         else s1)
      else if getp data ''type'' = JStr ''pong'' then s\<lparr>lastPong := Some (now s)\<rparr>
      else s)"


subsection \<open>connect and the socket's handlers\<close>

text \<open>
  \<open>connect()\<close>. The executor of \<open>new Promise\<close> runs before the promise is assigned to
  \<open>this.connectPromise\<close>: when \<open>new WebSocket(url)\<close> throws, the \<open>catch\<close> clears the
  field and rejects, and the assignment then stores the rejected promise.
\<close>

definition connect :: "state \<Rightarrow> nat \<times> state" where
  "connect s =
     (case connectPromise s of
        Some p \<Rightarrow> (p, s)
      | None \<Rightarrow>
          (let p = nextProm s;
               s1 = s\<lparr>nextProm := Suc (nextProm s),
                       connectionAttempts := Suc (connectionAttempts s)\<rparr>;
               u = getWsUrl s1;
               s2 = emit (JStr ''connecting'')
                      (JObj [(''attempt'', JNum (int (connectionAttempts s1))), (''url'', JStr u)]) s1
           in if ctorThrows s2 u
              then (p, (settle (ConnectP p) (Rejected (Error ''SyntaxError'' JUndefined))
                          (s2\<lparr>connectPromise := None\<rparr>))\<lparr>connectPromise := Some p\<rparr>)
              else
                (let k = nextSock s2;
                     s3 = s2\<lparr>ws := Some k,
                             sockets := (sockets s2)(k :=
                               \<lparr>url = u, readyState = CONNECTING, sockPromise = p,
                                sockTimeout = nextTimer s2, closeCalls = [], sent = []\<rparr>),
                             nextSock := Suc k\<rparr>;
                     (t, s4) = setTimer (ConnectTimeout p) 10000 False s3
                 in (p, s4\<lparr>connectPromise := Some p\<rparr>))))"

text \<open>The callback of the connection timeout of the \<open>connect\<close> call that created \<open>p\<close>.\<close>

definition connectTimeout :: "nat \<Rightarrow> state \<Rightarrow> state" where
  "connectTimeout p s =
     (case ws s of
        None \<Rightarrow> s
      | Some k \<Rightarrow>
          if readyState (sockets s k) \<noteq> OPEN
          then settle (ConnectP p) (Rejected (Error ''Connection timeout'' JUndefined))
                 ((ws_close k NoArgs s)\<lparr>connectPromise := None\<rparr>)
          else s)"

definition onopen :: "nat \<Rightarrow> state \<Rightarrow> state" where
  "onopen k s = emit (JStr ''socket_open'') JUndefined (clearTimer (sockTimeout (sockets s k)) s)"

text \<open>\<open>onmessage\<close>: \<open>None\<close> is a text that \<open>JSON.parse\<close> rejects.\<close>

definition onmessage :: "nat \<Rightarrow> json option \<Rightarrow> state \<Rightarrow> state" where
  "onmessage k m s =
     (case m of
        None \<Rightarrow> s
      | Some data \<Rightarrow> handleMessage data (sockPromise (sockets s k)) s)"

definition onclose :: "nat \<Rightarrow> nat \<Rightarrow> string \<Rightarrow> state \<Rightarrow> state" where
  "onclose k c reason s =
     (let s1 = clearTimer (sockTimeout (sockets s k)) s;
          s2 = s1\<lparr>connected := False, connectPromise := None, challengeNonce := JNull\<rparr>;
          s3 = emit (JStr ''disconnected'')
                 (JObj [(''code'', JNum (int c)), (''reason'', JStr reason)]) s2;
          s4 = stopPing s3
      in if \<not> connected s4
         then settle (ConnectP (sockPromise (sockets s k)))
                (Rejected (Error (if reason \<noteq> [] then reason
                                  else ''Connection closed ('' @ show_nat c @ '')'') JUndefined)) s4
         else s4)"

definition onerror :: "nat \<Rightarrow> state \<Rightarrow> state" where
  "onerror k s =
     emit (JStr ''error'') (JObj [(''error'', JStr ''WebSocket connection failed'')])
       (clearTimer (sockTimeout (sockets s k)) s)"

subsection \<open>send\<close>

text \<open>\<open>send(method, params = {})\<close>, with its 30 s timer; \<open>requestTimeout\<close> is the timer's
  callback. The default applies when the argument is omitted or \<open>undefined\<close>.\<close>

definition send :: "string \<Rightarrow> json \<Rightarrow> state \<Rightarrow> nat \<times> state" where
  "send method given s =
     (let params = (if given = JUndefined then JObj [] else given);
          p = nextProm s;
          s0 = s\<lparr>nextProm := Suc (nextProm s)\<rparr>
      in if \<not> connected s0 \<or> ws s0 = None \<or> readyState (sockets s0 (the (ws s0))) \<noteq> OPEN
         then (p, settle (SendP p) (Rejected (Error ''Not connected to gateway'' JUndefined)) s0)
         else
           (let (rid, s1) = nextId s0;
                s2 = s1\<lparr>pendingRequests := (pendingRequests s1)(rid \<mapsto> Callbacks p)\<rparr>;
                s3 = ws_send (JObj [(''type'', JStr ''req''), (''id'', JStr rid),
                                    (''method'', JStr method), (''params'', params)]) s2;
                (t, s4) = setTimer (RequestTimeout rid p) 30000 False s3
            in (p, s4)))"

definition requestTimeout :: "string \<Rightarrow> nat \<Rightarrow> state \<Rightarrow> state" where
  "requestTimeout rid p s =
     (if pendingRequests s rid \<noteq> None
      then settle (SendP p) (Rejected (Error ''Request timeout'' JUndefined))
             (s\<lparr>pendingRequests := (pendingRequests s)(rid := None)\<rparr>)
      else s)"

subsection \<open>disconnect and scheduleReconnect\<close>

definition disconnect :: "state \<Rightarrow> state" where
  "disconnect s =
     (let s1 = stopPing s;
          s2 = s1\<lparr>connectionAttempts := 0\<rparr>;
          s3 = (case reconnectTimer s2 of
                  Some t \<Rightarrow> (clearTimer t s2)\<lparr>reconnectTimer := None\<rparr>
                | None \<Rightarrow> s2);
          s4 = (case ws s3 of
                  Some k \<Rightarrow> (ws_close k (CodeReason 1000 ''User disconnect'') s3)\<lparr>ws := None\<rparr>
                | None \<Rightarrow> s3)
      in s4\<lparr>connected := False, connectPromise := None, pendingRequests := Map.empty\<rparr>)"

text \<open>
  \<open>Math.min(1000 * Math.pow(2, attempts), 30000)\<close>. The doubles hold \<open>1000 * 2^n\<close> exactly
  as long as it is finite, and \<open>Infinity\<close> beyond, where the minimum is the cap as well.
\<close>

definition reconnectDelay :: "nat \<Rightarrow> nat" where
  "reconnectDelay n = min (1000 * 2 ^ n) 30000"

definition scheduleReconnect :: "state \<Rightarrow> state" where
  "scheduleReconnect s =
     (if reconnectTimer s \<noteq> None then s
      else if connectionAttempts s \<ge> maxReconnectAttempts s
      then emit (JStr ''max_reconnects'') JUndefined s
      else
        (let (t, s1) = setTimer ReconnectTimeout (reconnectDelay (connectionAttempts s)) False s
         in s1\<lparr>reconnectTimer := Some t\<rparr>))"

text \<open>The callback of the reconnect timer: \<open>this.connect().catch(err => this.scheduleReconnect())\<close>
  registers the reaction on the promise that \<open>connect\<close> returns.\<close>

definition reconnectFired :: "state \<Rightarrow> state" where
  "reconnectFired s =
     (let (p, s1) = connect (s\<lparr>reconnectTimer := None\<rparr>)
      in s1\<lparr>reactions := reactions s1 @ [p]\<rparr>)"

subsection \<open>isConnected, getConnectionState\<close>


definition getConnectionState :: "state \<Rightarrow> string" where
  "getConnectionState s =
     (case ws s of
        None \<Rightarrow> ''disconnected''
      | Some k \<Rightarrow>
          (case readyState (sockets s k) of
             CONNECTING \<Rightarrow> ''connecting''
           | OPEN \<Rightarrow> (if connected s then ''connected'' else ''authenticating'')
           | CLOSING \<Rightarrow> ''closing''
           | CLOSED \<Rightarrow> ''disconnected''))"

subsection \<open>Tasks\<close>

text \<open>
  What can happen to the client: a call of a public method, an event of one of its sockets,
  a timer that fires, or time passing. A socket opens once, while connecting; delivers
  messages while open; and closes once (with the error event first when the connection
  failed). A timer fires when it is armed and due.
\<close>

datatype event =
    Configure config_patch
  | Connect
  | Disconnect
  | Send string json
  | ScheduleReconnect
  | On string nat
  | Off string nat
  | Emit json json
  | WsOpen nat
  | WsMessage nat "json option"
  | WsClose nat bool nat string
  | TimerFires nat
  | Elapse nat

definition setReadyState :: "nat \<Rightarrow> readyState \<Rightarrow> state \<Rightarrow> state" where
  "setReadyState k r s = s\<lparr>sockets := (sockets s)(k := (sockets s k)\<lparr>readyState := r\<rparr>)\<rparr>"

definition runCallback :: "timer_cb \<Rightarrow> state \<Rightarrow> state" where
  "runCallback cb s =
     (case cb of
        ConnectTimeout p \<Rightarrow> connectTimeout p s
      | RequestTimeout rid p \<Rightarrow> requestTimeout rid p s
      | PingInterval \<Rightarrow> pingTick s
      | ReconnectTimeout \<Rightarrow> reconnectFired s)"

definition timerFires :: "nat \<Rightarrow> state \<Rightarrow> state" where
  "timerFires t s =
     (case timers s t of
        None \<Rightarrow> s
      | Some tm \<Rightarrow>
          if due tm \<le> now s
          then runCallback (callback tm)
                 (if repeating tm
                  then s\<lparr>timers := (timers s)(t \<mapsto> tm\<lparr>due := now s + delay tm\<rparr>)\<rparr>
                  else clearTimer t s)
          else s)"

fun task :: "event \<Rightarrow> state \<Rightarrow> state" where
  "task (Configure c) s = configure c s"
| "task Connect s = snd (connect s)"
| "task Disconnect s = disconnect s"
| "task (Send method params) s = snd (send method params s)"
| "task ScheduleReconnect s = scheduleReconnect s"
| "task (On ev h) s = on ev h s"
| "task (Off ev h) s = off ev h s"
| "task (Emit ev data) s = emit ev data s"
| "task (WsOpen k) s =
     (if k < nextSock s \<and> readyState (sockets s k) = CONNECTING
      then onopen k (setReadyState k OPEN s) else s)"
| "task (WsMessage k m) s =
     (if k < nextSock s \<and> readyState (sockets s k) = OPEN then onmessage k m s else s)"
| "task (WsClose k failed c reason) s =
     (if k < nextSock s \<and> readyState (sockets s k) \<noteq> CLOSED
      then onclose k c reason
             (if failed then onerror k (setReadyState k CLOSED s) else setReadyState k CLOSED s)
      else s)"
| "task (TimerFires t) s = timerFires t s"
| "task (Elapse d) s = s\<lparr>now := now s + d\<rparr>"

text \<open>After a task, the reactions of the promises that were rejected run: each calls
  \<open>scheduleReconnect\<close>. A reaction of a fulfilled promise is dropped.\<close>

definition isRejected :: "state \<Rightarrow> nat \<Rightarrow> bool" where
  "isRejected s p =
     (case promiseState s (ConnectP p) of Some (Rejected e) \<Rightarrow> True | _ \<Rightarrow> False)"

definition microtasks :: "state \<Rightarrow> state" where
  "microtasks s =
     fold (\<lambda>p. scheduleReconnect) (filter (isRejected s) (reactions s))
       (s\<lparr>reactions := filter (\<lambda>p. promiseState s (ConnectP p) = None) (reactions s)\<rparr>)"

definition step :: "event \<Rightarrow> state \<Rightarrow> state" where
  "step e s = microtasks (task e s)"

fun run :: "event list \<Rightarrow> state \<Rightarrow> state" where
  "run [] s = s"
| "run (e # es) s = run es (step e s)"

subsection \<open>The constructor\<close>

text \<open>A new client in a browser: the clock, the stored items, what the handlers do, how
  the \<open>WebSocket\<close> constructor behaves, and the navigator are the browser's.\<close>

definition closedSocket :: socket where
  "closedSocket = \<lparr>url = [], readyState = CLOSED, sockPromise = 0, sockTimeout = 0,
                    closeCalls = [], sent = []\<rparr>"

definition newClient ::
  "nat \<Rightarrow> (string \<rightharpoonup> string) \<Rightarrow> (nat \<Rightarrow> harg \<Rightarrow> sub_op list) \<Rightarrow> (nat \<Rightarrow> harg \<Rightarrow> bool) \<Rightarrow> nat
     \<Rightarrow> (string \<Rightarrow> bool) \<Rightarrow> browser \<Rightarrow> state" where
  "newClient t0 store ops throws n ctor b =
     \<lparr>ws = None,
      config = \<lparr>host = [], port = 18789, token = [], useTls = False\<rparr>,
      connected = False,
      requestId = 0,
      pendingRequests = Map.empty,
      eventHandlers = Map.empty,
      reconnectTimer = None,
      pingInterval = None,
      lastPong = None,
      connectionAttempts = 0,
      maxReconnectAttempts = 5,
      challengeNonce = JNull,
      deviceId = None,
      connectPromise = None,
      now = t0,
      sockets = (\<lambda>k. closedSocket),
      nextSock = 0,
      timers = Map.empty,
      nextTimer = 1,
      settles = [],
      nextProm = 0,
      reactions = [],
      localStorage = store,
      emitted = [],
      invoked = [],
      reported = [],
      handlerOps = ops,
      handlerThrows = throws,
      fuel = n,
      overrun = False,
      ctorThrows = ctor,
      browser = b\<rparr>"


subsection \<open>Observations used to state the properties\<close>

text \<open>The delay of the armed reconnect timer, if one is armed.\<close>

definition armedDelay :: "state \<Rightarrow> nat option" where
  "armedDelay s =
     (case reconnectTimer s of None \<Rightarrow> None | Some t \<Rightarrow> map_option delay (timers s t))"

text \<open>A new client in a browser where no handler does anything and the constructor of
  \<open>WebSocket\<close> accepts every URL, and the client once it is configured: the start of the
  concrete runs below.\<close>

definition demoBrowser :: browser where
  "demoBrowser = \<lparr>userAgent = ''Mozilla/5.0 (X11; Linux x86_64)'', language = ''en-GB'',
                   platform = ''linux'', generatedDeviceId = ''ether-portal-1x2y3z''\<rparr>"

definition freshClient :: state where
  "freshClient =
     newClient 1700000000000 Map.empty (\<lambda>h a. []) (\<lambda>h a. False) 100 (\<lambda>u. False) demoBrowser"

definition demoPatch :: config_patch where
  "demoPatch = \<lparr>p_host = Some ''gw.local'', p_port = None, p_token = Some ''secret'',
                 p_useTls = None\<rparr>"

definition demoClient :: state where
  "demoClient = configure demoPatch freshClient"

text \<open>The handlers registered for an event, in the order of registration; the handlers
  that \<open>emit\<close> finds registered when it is called, each with the argument for it; the calls
  that an \<open>emit\<close> makes, the subscriptions it leaves and whether it was cut short; whether
  one of some calls unsubscribes a handler.\<close>

definition registered :: "state \<Rightarrow> string \<Rightarrow> nat list" where
  "registered s name = map the (filter (\<lambda>x. x \<noteq> None) (slots s name))"



definition emitCalls :: "state \<Rightarrow> json \<Rightarrow> json \<Rightarrow> (nat \<times> harg) list" where
  "emitCalls s ev d = drop (length (invoked s)) (invoked (emit ev d s))"

definition emitSubs :: "state \<Rightarrow> json \<Rightarrow> json \<Rightarrow> (string \<rightharpoonup> nat option list)" where
  "emitSubs s ev d = eventHandlers (emit ev d s)"

definition emitOverrun :: "state \<Rightarrow> json \<Rightarrow> json \<Rightarrow> bool" where
  "emitOverrun s ev d = overrun (emit ev d s)"

definition unsubscribedBy :: "state \<Rightarrow> string \<Rightarrow> nat \<Rightarrow> (nat \<times> harg) list \<Rightarrow> bool" where
  "unsubscribedBy s name h cs =
     list_ex (\<lambda>c. Unsubscribe name h \<in> set (handlerOps s (fst c) (snd c))) cs"

text \<open>
  Three clients with two handlers of \<open>connected\<close> and a wildcard handler: in the first,
  handler 1 throws; in the second, handler 1 unsubscribes handler 2; in the third, handler
  1 subscribes handler 4.
\<close>

definition throwingClient :: state where
  "throwingClient =
     on ''*'' 3 (on ''connected'' 2 (on ''connected'' 1
       (newClient 0 Map.empty (\<lambda>h a. []) (\<lambda>h a. h = 1) 10 (\<lambda>u. False) demoBrowser)))"


definition subscribingClient :: state where
  "subscribingClient =
     on ''*'' 3 (on ''connected'' 2 (on ''connected'' 1
       (newClient 0 Map.empty (\<lambda>h a. if h = 1 then [Subscribe ''connected'' 4] else [])
          (\<lambda>h a. False) 10 (\<lambda>u. False) demoBrowser)))"

text \<open>
  The parts of an \<open>emit\<close>: the state after the iteration of the topic's handlers; the
  calls that an iteration makes; the calls of the topic's handlers. And the state without
  the throwing of handlers and its reports.
\<close>

definition topicPass :: "json \<Rightarrow> json \<Rightarrow> state \<Rightarrow> state" where
  "topicPass ev d s =
     (case ev of
        JStr name \<Rightarrow> forEach (fuel s) name 0 (Plain d) (s\<lparr>emitted := emitted s @ [(ev, d)]\<rparr>)
      | _ \<Rightarrow> s\<lparr>emitted := emitted s @ [(ev, d)]\<rparr>)"

definition passCalls :: "nat \<Rightarrow> string \<Rightarrow> nat \<Rightarrow> harg \<Rightarrow> state \<Rightarrow> (nat \<times> harg) list" where
  "passCalls n ev i a s = drop (length (invoked s)) (invoked (forEach n ev i a s))"


definition unthrown :: "state \<Rightarrow> state" where
  "unthrown s = s\<lparr>handlerThrows := (\<lambda>h a. False), reported := []\<rparr>"

text \<open>The state without what an \<open>emit\<close> changes.\<close>

definition rest :: "state \<Rightarrow> state" where
  "rest s = s\<lparr>eventHandlers := Map.empty, emitted := [], invoked := [], reported := [],
              overrun := False\<rparr>"

text \<open>The timer that \<open>startPing\<close> arms, and the timers left when a stored one is cleared.\<close>

definition heartbeatTimer :: "state \<Rightarrow> timer" where
  "heartbeatTimer s =
     \<lparr>callback = PingInterval, delay = 25000, repeating = True, due = now s + 25000\<rparr>"

definition dropTimer :: "nat option \<Rightarrow> (nat \<rightharpoonup> timer) \<Rightarrow> (nat \<rightharpoonup> timer)" where
  "dropTimer t m = (case t of None \<Rightarrow> m | Some i \<Rightarrow> m(i := None))"

text \<open>The map after \<open>delete(data.id)\<close>, and the call that a found entry's callback makes.\<close>

definition deleteKey :: "json \<Rightarrow> (string \<rightharpoonup> callbacks) \<Rightarrow> (string \<rightharpoonup> callbacks)" where
  "deleteKey j m = (case j of JStr rid \<Rightarrow> m(rid := None) | _ \<Rightarrow> m)"

definition callbackCall :: "callbacks option \<Rightarrow> outcome \<Rightarrow> (prom \<times> outcome) list" where
  "callbackCall cb r = (case cb of Some (Callbacks q) \<Rightarrow> [(SendP q, r)] | _ \<Rightarrow> [])"

text \<open>The state of the hello-ok branch of \<open>handleMessage\<close> before its \<open>emit\<close>, and after.\<close>

definition helloReady :: "json \<Rightarrow> state \<Rightarrow> state" where
  "helloReady data s =
     startPing
       (if truthy (getp (getp (getp data ''payload'') ''auth'') ''deviceToken'')
        then s\<lparr>connected := True, connectionAttempts := 0,
               localStorage := (localStorage s)(''ether-portal-device-token'' \<mapsto>
                  js_string (getp (getp (getp data ''payload'') ''auth'') ''deviceToken''))\<rparr>
        else s\<lparr>connected := True, connectionAttempts := 0\<rparr>)"

definition helloState :: "json \<Rightarrow> state \<Rightarrow> state" where
  "helloState data s =
     emit (JStr ''connected'') (JObj [(''protocol'', getp (getp data ''payload'') ''protocol'')])
       (helloReady data s)"

text \<open>Frames of the gateway, and the events of a session that authenticates: the gateway's
  challenge, then its hello-ok answer to the connect request.\<close>

definition challengeFrame :: json where
  "challengeFrame =
     JObj [(''type'', JStr ''event''), (''event'', JStr ''connect.challenge''),
       (''payload'', JObj [(''nonce'', JStr ''abc123'')])]"

definition helloFrame :: "string \<Rightarrow> json" where
  "helloFrame rid =
     JObj [(''type'', JStr ''res''), (''id'', JStr rid), (''ok'', JBool True),
       (''payload'', JObj [(''type'', JStr ''hello-ok''), (''protocol'', JNum 3),
          (''auth'', JObj [(''deviceToken'', JStr ''dev-tok-1'')])])]"

definition errorFrame :: "string \<Rightarrow> json" where
  "errorFrame rid =
     JObj [(''type'', JStr ''res''), (''id'', JStr rid), (''ok'', JBool False),
       (''error'', JObj [(''code'', JStr ''NOT_FOUND''), (''message'', JStr ''no such job'')])]"

definition sessionUp :: "event list" where
  "sessionUp =
     [Connect, WsOpen 0, WsMessage 0 (Some challengeFrame),
      WsMessage 0 (Some (helloFrame ''req_1_1700000000000''))]"

text \<open>A socket after \<open>close(a)\<close>, and the sockets after the current one, if any, is closed.\<close>

definition closedBy :: "close_args \<Rightarrow> socket \<Rightarrow> socket" where
  "closedBy a sk =
     sk\<lparr>readyState := (if readyState sk = CONNECTING \<or> readyState sk = OPEN
                        then CLOSING else readyState sk),
        closeCalls := closeCalls sk @ [a]\<rparr>"

definition closeCurrent ::
  "close_args \<Rightarrow> nat option \<Rightarrow> (nat \<Rightarrow> socket) \<Rightarrow> (nat \<Rightarrow> socket)" where
  "closeCurrent a w m = (case w of None \<Rightarrow> m | Some k \<Rightarrow> m(k := closedBy a (m k)))"

text \<open>An authenticated session with one request sent and not yet answered.\<close>

definition requestInFlight :: state where
  "requestInFlight =
     run (sessionUp @ [Send ''cron.run'' (JObj [(''jobId'', JStr ''nightly'')])]) demoClient"

text \<open>The gateway refuses the first connection.\<close>

definition refusedRun :: state where
  "refusedRun = run [Connect, WsClose 0 True 1006 []] demoClient"

text \<open>An authenticated session in which no pong ever arrives: the heartbeat fires at 25 s,
  50 s and 75 s, the socket then closes, and 30 s more pass.\<close>

definition silentRun :: state where
  "silentRun =
     run (sessionUp @ [Elapse 25000, TimerFires 2, Elapse 25000, TimerFires 2,
                       Elapse 25000, TimerFires 2, WsClose 0 False 4000 ''Ping timeout'',
                       Elapse 30000]) demoClient"

text \<open>A first attempt times out after 10 s and \<open>connect()\<close> is called again; then the close
  event of the first socket arrives.\<close>

definition secondAttempt :: state where
  "secondAttempt = run [Connect, Elapse 10000, TimerFires 1, Connect] demoClient"

definition staleClose :: state where
  "staleClose = step (WsClose 0 True 1006 []) secondAttempt"

text \<open>\<open>scheduleReconnect()\<close> is called once and every reconnection fails: the timers fire
  after 1, 2, 4, 8 and 16 s, and each new socket is refused.\<close>

definition exhaustedRun :: state where
  "exhaustedRun =
     run [ScheduleReconnect,
          Elapse 1000, TimerFires 1, WsClose 0 True 1006 [],
          Elapse 2000, TimerFires 3, WsClose 1 True 1006 [],
          Elapse 4000, TimerFires 5, WsClose 2 True 1006 [],
          Elapse 8000, TimerFires 7, WsClose 3 True 1006 [],
          Elapse 16000, TimerFires 9, WsClose 4 True 1006 []] demoClient"

text \<open>\<open>scheduleReconnect()\<close> arms its timer; before the timer fires, \<open>connect()\<close> is
  called five times and the gateway refuses each connection.\<close>

definition armedExhausted :: state where
  "armedExhausted =
     run [ScheduleReconnect,
          Connect, WsClose 0 True 1006 [], Connect, WsClose 1 True 1006 [],
          Connect, WsClose 2 True 1006 [], Connect, WsClose 3 True 1006 [],
          Connect, WsClose 4 True 1006 []] demoClient"

text \<open>The socket closes while the request is in flight.\<close>

definition closedPending :: state where
  "closedPending =
     run (sessionUp @ [Send ''cron.run'' (JObj [(''jobId'', JStr ''nightly'')]),
                       WsClose 0 False 1006 []]) demoClient"


text \<open>The gateway answers the request in flight with an error; and the client disconnects
  while the request is in flight, its timeout fires and the socket closes.\<close>

definition errorAnswered :: state where
  "errorAnswered =
     run (sessionUp @ [Send ''cron.run'' (JObj [(''jobId'', JStr ''nightly'')]),
                       WsMessage 0 (Some (errorFrame ''req_2_1700000000000''))]) demoClient"


subsection \<open>The requests of a run\<close>

text \<open>
  The request id that \<open>nextId\<close> builds from the counter and the time, and a reader of
  decimal digits, the inverse of \<open>show_nat\<close>.
\<close>

definition mkId :: "nat \<Rightarrow> nat \<Rightarrow> string" where
  "mkId n t = ''req_'' @ show_nat n @ ''_'' @ show_nat t"



text \<open>How often \<open>resolve\<close> or \<open>reject\<close> of a promise was called.\<close>

definition callsIn :: "(prom \<times> outcome) list \<Rightarrow> prom \<Rightarrow> nat" where
  "callsIn L p = length (filter (\<lambda>c. fst c = p) L)"

definition calls :: "state \<Rightarrow> prom \<Rightarrow> nat" where
  "calls s p = callsIn (settles s) p"

text \<open>
  What the requests depend on: the pending-request map, the armed request timeouts (id and
  promise), the calls of promise callbacks, and the counters for promises and request ids.
  \<open>coreStep\<close> lists the ways in which a task of the client changes them:
  \<^item> \<open>quiet\<close>: no request is touched (timers may go, \<open>connect\<close> promises may be created
    and settled);
  \<^item> \<open>noops\<close>: \<open>sendConnectRequest\<close> registers its no-op callbacks under a new id;
  \<^item> \<open>accepted\<close>, \<open>refused\<close>: \<open>send\<close> registers a new promise under a new id and arms its
    timeout, or rejects the new promise at once;
  \<^item> \<open>answered\<close>: a response removes an entry and calls its callback;
  \<^item> \<open>timedOut\<close>: a request timeout finds its id in the map, removes the entry and rejects;
  \<^item> \<open>cleared\<close>: \<open>disconnect\<close> empties the map; it is a step only when the flag \<open>dis\<close>
    is set, so that \<open>coreStep False\<close> lists the changes of the tasks other than
    \<open>disconnect()\<close>.
\<close>

type_synonym core =
  "(string \<rightharpoonup> callbacks) \<times> (string \<times> nat) set \<times> (prom \<times> outcome) list \<times> nat \<times> nat"

definition isIssued :: "nat \<Rightarrow> string \<Rightarrow> bool" where
  "isIssued rq rid = (\<exists>n t. rid = mkId n t \<and> n \<le> rq)"

definition connectOnly :: "(prom \<times> outcome) list \<Rightarrow> bool" where
  "connectOnly X = (\<forall>n. callsIn X (SendP n) = 0)"

definition requestTimers :: "state \<Rightarrow> (string \<times> nat) set" where
  "requestTimers s =
     {(rid, n). \<exists>t tm. timers s t = Some tm \<and> callback tm = RequestTimeout rid n}"

definition coreOf :: "state \<Rightarrow> core" where
  "coreOf s = (pendingRequests s, requestTimers s, settles s, nextProm s, requestId s)"

inductive coreStep :: "bool \<Rightarrow> core \<Rightarrow> core \<Rightarrow> bool" where
  quiet: "T' \<subseteq> T \<Longrightarrow> np \<le> np' \<Longrightarrow> connectOnly X \<Longrightarrow>
          coreStep dis (P, T, L, np, rq) (P, T', L @ X, np', rq)"
| noops: "coreStep dis (P, T, L, np, rq) (P(mkId (rq + 1) t \<mapsto> NoOps), T, L, np, rq + 1)"
| accepted: "coreStep dis (P, T, L, np, rq)
          (P(mkId (rq + 1) t \<mapsto> Callbacks np), insert (mkId (rq + 1) t, np) T, L, np + 1, rq + 1)"
| refused: "coreStep dis (P, T, L, np, rq) (P, T, L @ [(SendP np, r)], np + 1, rq)"
| answered: "P rid = Some cb \<Longrightarrow>
          coreStep dis (P, T, L, np, rq) (P(rid := None), T, L @ callbackCall (Some cb) r, np, rq)"
| timedOut: "(rid, n) \<in> T \<Longrightarrow> P rid \<noteq> None \<Longrightarrow>
          coreStep dis (P, T, L, np, rq) (P(rid := None), T, L @ [(SendP n, r)], np, rq)"
| cleared: "coreStep True (P, T, L, np, rq) (Map.empty, T, L, np, rq)"

text \<open>
  The invariant of the requests: every id in the map was issued; a promise in the map is
  an old one whose callbacks were never called, and it is in the map once; an armed
  request timeout whose id is in the map finds its own promise there; no callback of a
  \<open>send\<close> promise was called twice, and none of a promise not yet created. A promise is
  stranded when it is unsettled and no entry of the map holds it.
\<close>

definition coreInv :: "core \<Rightarrow> bool" where
  "coreInv c =
     (case c of (P, T, L, np, rq) \<Rightarrow>
        (\<forall>rid. P rid \<noteq> None \<longrightarrow> isIssued rq rid)
      \<and> (\<forall>rid n. P rid = Some (Callbacks n) \<longrightarrow> n < np \<and> callsIn L (SendP n) = 0)
      \<and> (\<forall>rid rid' n. P rid = Some (Callbacks n) \<and> P rid' = Some (Callbacks n) \<longrightarrow> rid = rid')
      \<and> (\<forall>rid n. (rid, n) \<in> T \<longrightarrow>
            isIssued rq rid \<and> (\<forall>e. P rid = Some e \<longrightarrow> e = Callbacks n))
      \<and> (\<forall>n. callsIn L (SendP n) \<le> 1)
      \<and> (\<forall>n. np \<le> n \<longrightarrow> callsIn L (SendP n) = 0))"


text \<open>Timers \<open>m'\<close> with no request timeout that \<open>m\<close> does not have; a state change that
  touches no request; and a state change made of the steps of \<open>coreStep\<close>.\<close>

definition noNew :: "(nat \<rightharpoonup> timer) \<Rightarrow> (nat \<rightharpoonup> timer) \<Rightarrow> bool" where
  "noNew m m' =
     (\<forall>t tm rid n. m' t = Some tm \<and> callback tm = RequestTimeout rid n \<longrightarrow>
        (\<exists>tm0. m t = Some tm0 \<and> callback tm0 = RequestTimeout rid n))"

definition quiet :: "state \<Rightarrow> state \<Rightarrow> bool" where
  "quiet s s' =
     (pendingRequests s' = pendingRequests s \<and> requestId s' = requestId s
      \<and> nextProm s \<le> nextProm s' \<and> noNew (timers s) (timers s')
      \<and> (\<exists>X. settles s' = settles s @ X \<and> connectOnly X))"

definition moves :: "bool \<Rightarrow> state \<Rightarrow> state \<Rightarrow> bool" where
  "moves dis s s' = rtranclp (coreStep dis) (coreOf s) (coreOf s')"


subsection \<open>The timers of a run\<close>

text \<open>
  The client stores the identities of its heartbeat timer, its reconnect timer and the
  connection timeout of each socket, and clears timers by these identities only. The
  timers are in order when the browser hands out new identities and no stored identity is
  the one of a request timeout. A state change is careful when it keeps the timers in
  order and every armed request timeout as it is.
\<close>

definition isRequest :: "timer_cb \<Rightarrow> bool" where
  "isRequest cb = (case cb of RequestTimeout rid n \<Rightarrow> True | _ \<Rightarrow> False)"

definition stored :: "state \<Rightarrow> nat set" where
  "stored s =
     {t. pingInterval s = Some t \<or> reconnectTimer s = Some t \<or> (\<exists>k. sockTimeout (sockets s k) = t)}"

definition timersOK :: "state \<Rightarrow> bool" where
  "timersOK s =
     (0 < nextTimer s
      \<and> (\<forall>t tm. timers s t = Some tm \<longrightarrow> t < nextTimer s)
      \<and> (\<forall>t. t \<in> stored s \<longrightarrow>
            t < nextTimer s \<and> (\<forall>tm. timers s t = Some tm \<longrightarrow> \<not> isRequest (callback tm))))"

definition keepsRequests :: "state \<Rightarrow> state \<Rightarrow> bool" where
  "keepsRequests s s' =
     (\<forall>t tm. timers s t = Some tm \<and> isRequest (callback tm) \<longrightarrow> timers s' t = Some tm)"

definition careful :: "state \<Rightarrow> state \<Rightarrow> bool" where
  "careful s s' = (timersOK s \<longrightarrow> timersOK s' \<and> keepsRequests s s')"

text \<open>A timer that fires is disarmed, or armed again when it repeats; the others stay.\<close>

definition fired :: "nat \<Rightarrow> state \<Rightarrow> state" where
  "fired t s =
     (case timers s t of
        None \<Rightarrow> s
      | Some tm \<Rightarrow>
          if repeating tm then s\<lparr>timers := (timers s)(t \<mapsto> tm\<lparr>due := now s + delay tm\<rparr>)\<rparr>
          else clearTimer t s)"



text \<open>
  A request of the client: it is awaited while its entry holds its promise, no callback
  was called and its timeout is armed; it is settled once when the entry is gone and one
  callback was called.
\<close>

definition awaited :: "string \<Rightarrow> nat \<Rightarrow> nat \<Rightarrow> nat \<Rightarrow> state \<Rightarrow> bool" where
  "awaited rid n t d s =
     (pendingRequests s rid = Some (Callbacks n) \<and> calls s (SendP n) = 0
      \<and> timers s t = Some \<lparr>callback = RequestTimeout rid n, delay = 30000, repeating = False,
                            due = d\<rparr>)"


subsection \<open>The attempt counter\<close>

text \<open>A hello-ok response; the tasks that may lower the attempt counter: \<open>disconnect()\<close> and
  a message that is a hello-ok response; and a state change that does not lower it.\<close>

definition helloOk :: "json \<Rightarrow> bool" where
  "helloOk data =
     (getp data ''type'' = JStr ''res'' \<and> getp (getp data ''payload'') ''type'' = JStr ''hello-ok'')"

fun resets :: "event \<Rightarrow> bool" where
  "resets Disconnect = True"
| "resets (WsMessage k (Some data)) = helloOk data"
| "resets e = False"

definition counts :: "state \<Rightarrow> state \<Rightarrow> bool" where
  "counts s s' = (connectionAttempts s \<le> connectionAttempts s')"

section \<open>Properties\<close>

text \<open>The equations that run the model on a concrete input.\<close>

lemmas model_defs =
  step_def microtasks_def isRejected_def promiseState_def connect_def emit_def handlersFor_def
  getWsUrl_def setTimer_def clearTimer_def settle_def demoClient_def demoPatch_def freshClient_def
  demoBrowser_def newClient_def
  configure_def onopen_def onclose_def onerror_def onmessage_def handleMessage_def
  setReadyState_def stopPing_def startPing_def pendingGet_def pendingDelete_def callResolve_def
  callReject_def nullish_def jor_def sliceThrows_def send_def nextId_def ws_send_def ws_close_def
  disconnect_def scheduleReconnect_def timerFires_def runCallback_def requestTimeout_def
  connectTimeout_def pingTick_def reconnectFired_def getConnectionState_def closedSocket_def
  reconnectDelay_def sendConnectRequest_def getDeviceId_def connectRequest_def
  show_nat.simps digit_char_def helloFrame_def challengeFrame_def errorFrame_def sessionUp_def
  Let_def

subsection \<open>Closed forms of the operations\<close>

lemma rest_eq:
  assumes "rest s' = rest s"
  shows "s' = s\<lparr>eventHandlers := eventHandlers s', emitted := emitted s', invoked := invoked s',
                 reported := reported s', overrun := overrun s'\<rparr>"
  using assms by (cases s, cases s') (simp add: rest_def)

lemma rest_perform [simp]: "rest (perform op s) = rest s"
  by (cases op) (simp_all add: perform_def on_def off_def rest_def split: option.splits)

lemma rest_fold_perform [simp]: "rest (fold perform ops s) = rest s"
  by (induction ops arbitrary: s) simp_all

lemma rest_invoked [simp]: "rest (s\<lparr>invoked := x\<rparr>) = rest s"
  and rest_reported [simp]: "rest (s\<lparr>reported := y\<rparr>) = rest s"
  and rest_emitted [simp]: "rest (s\<lparr>emitted := z\<rparr>) = rest s"
  and rest_overrun [simp]: "rest (s\<lparr>overrun := b\<rparr>) = rest s"
  by (simp_all add: rest_def)

lemma rest_invoke [simp]: "rest (invoke a h s) = rest s"
  by (simp add: invoke_def Let_def)

lemma rest_forEach [simp]: "rest (forEach n ev i a s) = rest s"
proof (induction n arbitrary: i s)
  case 0
  show ?case by simp
next
  case (Suc n)
  show ?case
  proof (cases "slots s ev ! i")
    case None
    then show ?thesis by (simp add: Suc.IH)
  next
    case (Some h)
    then show ?thesis by (simp add: Suc.IH)
  qed
qed

lemma rest_emit [simp]: "rest (emit ev d s) = rest s"
proof -
  let ?s0 = "s\<lparr>emitted := emitted s @ [(ev, d)]\<rparr>"
  let ?s1 = "case handlersFor ?s0 ev of
                  Some name \<Rightarrow> forEach (fuel ?s0) name 0 (Plain d) ?s0
                | None \<Rightarrow> ?s0"
  have a: "rest ?s1 = rest s" by (cases "handlersFor ?s0 ev") simp_all
  have "rest (emit ev d s) = rest ?s1"
    by (cases "eventHandlers ?s1 ''*''") (simp_all add: emit_def Let_def)
  then show ?thesis using a by simp
qed


lemma rest_throws: "handlerThrows (rest s) = handlerThrows s"
  and rest_ops: "handlerOps (rest s) = handlerOps s"
  and rest_fuel: "fuel (rest s) = fuel s"
  by (simp_all add: rest_def)

lemma invoke_consts [simp]:
  "handlerThrows (invoke a h s) = handlerThrows s"
  "handlerOps (invoke a h s) = handlerOps s"
  "fuel (invoke a h s) = fuel s"
proof -
  have "rest (invoke a h s) = rest s" by simp
  then show "handlerThrows (invoke a h s) = handlerThrows s"
    "handlerOps (invoke a h s) = handlerOps s" "fuel (invoke a h s) = fuel s"
    by (metis rest_throws, metis rest_ops, metis rest_fuel)
qed

lemma perform_logs [simp]:
  "invoked (perform op s) = invoked s" "reported (perform op s) = reported s"
  "emitted (perform op s) = emitted s" "overrun (perform op s) = overrun s"
  by (cases op; simp add: perform_def on_def off_def split: option.splits)+

lemma fold_perform_invoked [simp]: "invoked (fold perform ops s) = invoked s"
  by (induction ops arbitrary: s) simp_all

lemma fold_perform_reported [simp]: "reported (fold perform ops s) = reported s"
  by (induction ops arbitrary: s) simp_all

lemma fold_perform_emitted [simp]: "emitted (fold perform ops s) = emitted s"
  by (induction ops arbitrary: s) simp_all

lemma fold_perform_overrun [simp]: "overrun (fold perform ops s) = overrun s"
  by (induction ops arbitrary: s) simp_all

lemma invoke_logs [simp]:
  "invoked (invoke a h s) = invoked s @ [(h, a)]"
  "reported (invoke a h s) = reported s @ filter (\<lambda>(h, a). handlerThrows s h a) [(h, a)]"
  "emitted (invoke a h s) = emitted s"
  "overrun (invoke a h s) = overrun s"
  by (simp_all add: invoke_def Let_def)

lemma forEach_emitted [simp]: "emitted (forEach n ev i a s) = emitted s"
proof (induction n arbitrary: i s)
  case 0
  show ?case by simp
next
  case (Suc n)
  show ?case by (cases "slots s ev ! i") (simp_all add: Suc.IH)
qed

lemma forEach_logs:
  "\<exists>X. invoked (forEach n ev i a s) = invoked s @ X
       \<and> reported (forEach n ev i a s) = reported s @ filter (\<lambda>(h, a). handlerThrows s h a) X"
proof (induction n arbitrary: i s)
  case 0
  show ?case by simp
next
  case (Suc n)
  show ?case
  proof (cases "i < length (slots s ev)")
    case False
    then show ?thesis by simp
  next
    case True
    show ?thesis
    proof (cases "slots s ev ! i")
      case None
      then show ?thesis using True Suc.IH [of "Suc i" s] by simp
    next
      case (Some h)
      obtain X where "invoked (forEach n ev (Suc i) a (invoke a h s)) = invoked (invoke a h s) @ X"
        "reported (forEach n ev (Suc i) a (invoke a h s))
           = reported (invoke a h s) @ filter (\<lambda>(h', a'). handlerThrows (invoke a h s) h' a') X"
        using Suc.IH [of "Suc i" "invoke a h s"] by blast
      then have "invoked (forEach (Suc n) ev i a s) = invoked s @ ((h, a) # X)
         \<and> reported (forEach (Suc n) ev i a s)
             = reported s @ filter (\<lambda>(h, a). handlerThrows s h a) ((h, a) # X)"
        using True Some by simp
      then show ?thesis by (rule exI)
    qed
  qed
qed

lemma emit_logs:
  "emitted (emit ev d s) = emitted s @ [(ev, d)]
   \<and> invoked (emit ev d s) = invoked s @ emitCalls s ev d
   \<and> reported (emit ev d s)
       = reported s @ filter (\<lambda>(h, a). handlerThrows s h a) (emitCalls s ev d)"
proof -
  let ?s0 = "s\<lparr>emitted := emitted s @ [(ev, d)]\<rparr>"
  let ?s1 = "case handlersFor ?s0 ev of
                  Some name \<Rightarrow> forEach (fuel ?s0) name 0 (Plain d) ?s0
                | None \<Rightarrow> ?s0"
  have e: "emit ev d s = (case eventHandlers ?s1 ''*'' of
           Some wild \<Rightarrow> forEach (fuel ?s1) ''*'' 0 (Wild ev d) ?s1
         | None \<Rightarrow> ?s1)"
    by (simp add: emit_def Let_def)
  have r1: "rest ?s1 = rest s" by (cases "handlersFor ?s0 ev") simp_all
  have t1: "handlerThrows ?s1 = handlerThrows s" using r1 by (metis rest_throws)
  obtain X where X: "invoked ?s1 = invoked s @ X"
    "reported ?s1 = reported s @ filter (\<lambda>(h, a). handlerThrows s h a) X"
    "emitted ?s1 = emitted s @ [(ev, d)]"
  proof (cases "handlersFor ?s0 ev")
    case None
    then show ?thesis using that [of "[]"] by simp
  next
    case (Some name)
    then show ?thesis
      using that forEach_logs [of "fuel ?s0" name 0 "Plain d" ?s0] by auto
  qed
  obtain Y where Y: "invoked (emit ev d s) = invoked ?s1 @ Y"
    "reported (emit ev d s) = reported ?s1 @ filter (\<lambda>(h, a). handlerThrows ?s1 h a) Y"
    "emitted (emit ev d s) = emitted ?s1"
  proof (cases "eventHandlers ?s1 ''*''")
    case None
    then show ?thesis using that [of "[]"] by (simp add: e)
  next
    case (Some wild)
    then show ?thesis
      using that forEach_logs [of "fuel ?s1" "''*''" 0 "Wild ev d" ?s1] by (auto simp: e)
  qed
  have "invoked (emit ev d s) = invoked s @ (X @ Y)" using X Y by simp
  then have c: "emitCalls s ev d = X @ Y" by (simp add: emitCalls_def)
  show ?thesis using X Y c t1 by simp
qed

lemma emit_eq:
  "emit ev d s =
     s\<lparr>eventHandlers := emitSubs s ev d,
       emitted := emitted s @ [(ev, d)],
       invoked := invoked s @ emitCalls s ev d,
       reported := reported s @ filter (\<lambda>(h, a). handlerThrows s h a) (emitCalls s ev d),
       overrun := emitOverrun s ev d\<rparr>"
proof -
  have "emit ev d s =
     s\<lparr>eventHandlers := eventHandlers (emit ev d s), emitted := emitted (emit ev d s),
       invoked := invoked (emit ev d s), reported := reported (emit ev d s),
       overrun := overrun (emit ev d s)\<rparr>"
    by (rule rest_eq) simp
  also have "\<dots> = s\<lparr>eventHandlers := emitSubs s ev d,
       emitted := emitted s @ [(ev, d)],
       invoked := invoked s @ emitCalls s ev d,
       reported := reported s @ filter (\<lambda>(h, a). handlerThrows s h a) (emitCalls s ev d),
       overrun := emitOverrun s ev d\<rparr>"
    by (simp add: emit_logs emitSubs_def emitOverrun_def)
  finally show ?thesis .
qed

lemma startPing_eq:
  "startPing s =
     s\<lparr>pingInterval := Some (nextTimer s), lastPong := Some (now s),
       timers := (dropTimer (pingInterval s) (timers s))(nextTimer s \<mapsto> heartbeatTimer s),
       nextTimer := Suc (nextTimer s)\<rparr>"
  by (simp add: startPing_def stopPing_def clearTimer_def setTimer_def heartbeatTimer_def Let_def
        dropTimer_def split: option.splits)

lemma pendingDelete_eq:
  "pendingDelete j s = s\<lparr>pendingRequests := deleteKey j (pendingRequests s)\<rparr>"
  by (cases j) (simp_all add: pendingDelete_def deleteKey_def)

lemma callResolve_eq:
  "callResolve cb v s = s\<lparr>settles := settles s @ callbackCall (Some cb) (Resolved v)\<rparr>"
  by (cases cb) (simp_all add: callResolve_def callbackCall_def settle_def)

lemma callReject_eq:
  "callReject cb e s = s\<lparr>settles := settles s @ callbackCall (Some cb) (Rejected e)\<rparr>"
  by (cases cb) (simp_all add: callReject_def callbackCall_def settle_def)

lemma ws_close_eq: "ws_close k a s = s\<lparr>sockets := (sockets s)(k := closedBy a (sockets s k))\<rparr>"
  by (simp add: ws_close_def closedBy_def Let_def)

lemma stopPing_eq:
  "stopPing s = s\<lparr>pingInterval := None, timers := dropTimer (pingInterval s) (timers s)\<rparr>"
  by (simp add: stopPing_def clearTimer_def dropTimer_def split: option.splits)

lemma disconnect_eq:
  "disconnect s =
     s\<lparr>ws := None, connected := False, pendingRequests := Map.empty, reconnectTimer := None,
       pingInterval := None, connectionAttempts := 0, connectPromise := None,
       sockets := closeCurrent (CodeReason 1000 ''User disconnect'') (ws s) (sockets s),
       timers := dropTimer (reconnectTimer s) (dropTimer (pingInterval s) (timers s))\<rparr>"
  by (simp add: disconnect_def stopPing_eq ws_close_eq clearTimer_def dropTimer_def closeCurrent_def
        Let_def split: option.splits)

lemma handleMessage_hello:
  assumes "getp data ''type'' = JStr ''res''"
    and "getp (getp data ''payload'') ''type'' = JStr ''hello-ok''"
  shows "handleMessage data p s =
     settle (ConnectP p) (Resolved (getp data ''payload''))
       (case pendingGet s (getp data ''id'') of
          Some cb \<Rightarrow> callResolve cb (getp data ''payload'')
                      (pendingDelete (getp data ''id'') (helloState data s))
        | None \<Rightarrow> helloState data s)"
proof -
  have nn: "\<not> nullish data" using assms(1) by (auto simp: nullish_def)
  show ?thesis
    using nn assms
    by (cases "pendingGet s (getp data ''id'')")
       (simp_all add: handleMessage_def helloState_def helloReady_def Let_def)
qed

lemma helloReady_eq:
  "helloReady data s =
     s\<lparr>connected := True, connectionAttempts := 0,
       localStorage :=
         (if truthy (getp (getp (getp data ''payload'') ''auth'') ''deviceToken'')
          then (localStorage s)(''ether-portal-device-token'' \<mapsto>
                 js_string (getp (getp (getp data ''payload'') ''auth'') ''deviceToken''))
          else localStorage s),
       pingInterval := Some (nextTimer s), lastPong := Some (now s),
       timers := (dropTimer (pingInterval s) (timers s))(nextTimer s \<mapsto> heartbeatTimer s),
       nextTimer := Suc (nextTimer s)\<rparr>"
  by (cases "truthy (getp (getp (getp data ''payload'') ''auth'') ''deviceToken'')")
     (simp_all add: helloReady_def startPing_eq heartbeatTimer_def)

lemma helloState_eq:
  "helloState data s =
     s\<lparr>connected := True, connectionAttempts := 0,
       localStorage :=
         (if truthy (getp (getp (getp data ''payload'') ''auth'') ''deviceToken'')
          then (localStorage s)(''ether-portal-device-token'' \<mapsto>
                 js_string (getp (getp (getp data ''payload'') ''auth'') ''deviceToken''))
          else localStorage s),
       pingInterval := Some (nextTimer s), lastPong := Some (now s),
       timers := (dropTimer (pingInterval s) (timers s))(nextTimer s \<mapsto> heartbeatTimer s),
       nextTimer := Suc (nextTimer s),
       eventHandlers := emitSubs (helloReady data s) (JStr ''connected'')
                     (JObj [(''protocol'', getp (getp data ''payload'') ''protocol'')]),
       emitted := emitted s @ [(JStr ''connected'',
                     JObj [(''protocol'', getp (getp data ''payload'') ''protocol'')])],
       invoked := invoked s @ emitCalls (helloReady data s) (JStr ''connected'')
                     (JObj [(''protocol'', getp (getp data ''payload'') ''protocol'')]),
       reported := reported s @ filter (\<lambda>(h, a). handlerThrows s h a)
                     (emitCalls (helloReady data s) (JStr ''connected'')
                        (JObj [(''protocol'', getp (getp data ''payload'') ''protocol'')])),
       overrun := emitOverrun (helloReady data s) (JStr ''connected'')
                     (JObj [(''protocol'', getp (getp data ''payload'') ''protocol'')])\<rparr>"
proof -
  let ?ev = "JStr ''connected''"
  let ?d = "JObj [(''protocol'', getp (getp data ''payload'') ''protocol'')]"
  let ?r = "helloReady data s"
  have "helloState data s =
     ?r\<lparr>eventHandlers := emitSubs ?r ?ev ?d, emitted := emitted ?r @ [(?ev, ?d)],
        invoked := invoked ?r @ emitCalls ?r ?ev ?d,
        reported := reported ?r @ filter (\<lambda>(h, a). handlerThrows ?r h a) (emitCalls ?r ?ev ?d),
        overrun := emitOverrun ?r ?ev ?d\<rparr>"
    unfolding helloState_def by (rule emit_eq)
  also have "\<dots> = s\<lparr>connected := True, connectionAttempts := 0,
       localStorage :=
         (if truthy (getp (getp (getp data ''payload'') ''auth'') ''deviceToken'')
          then (localStorage s)(''ether-portal-device-token'' \<mapsto>
                 js_string (getp (getp (getp data ''payload'') ''auth'') ''deviceToken''))
          else localStorage s),
       pingInterval := Some (nextTimer s), lastPong := Some (now s),
       timers := (dropTimer (pingInterval s) (timers s))(nextTimer s \<mapsto> heartbeatTimer s),
       nextTimer := Suc (nextTimer s),
       eventHandlers := emitSubs ?r ?ev ?d,
       emitted := emitted s @ [(?ev, ?d)],
       invoked := invoked s @ emitCalls ?r ?ev ?d,
       reported := reported s @ filter (\<lambda>(h, a). handlerThrows s h a) (emitCalls ?r ?ev ?d),
       overrun := emitOverrun ?r ?ev ?d\<rparr>"
  proof -
    have f: "emitted ?r = emitted s" "invoked ?r = invoked s" "reported ?r = reported s"
      "handlerThrows ?r = handlerThrows s"
      by (simp_all add: helloReady_eq)
    show ?thesis
      unfolding f by (subst (1) helloReady_eq) simp
  qed
  finally show ?thesis .
qed

lemma handleMessage_hello_eq:
  assumes "getp data ''type'' = JStr ''res''"
    and "getp (getp data ''payload'') ''type'' = JStr ''hello-ok''"
  shows "handleMessage data p s =
     (helloState data s)\<lparr>
        pendingRequests :=
          (if pendingGet s (getp data ''id'') = None then pendingRequests s
           else deleteKey (getp data ''id'') (pendingRequests s)),
        settles := settles s
          @ callbackCall (pendingGet s (getp data ''id'')) (Resolved (getp data ''payload''))
          @ [(ConnectP p, Resolved (getp data ''payload''))]\<rparr>"
  by (cases "pendingGet s (getp data ''id'')")
     (simp_all add: handleMessage_hello [OF assms] helloState_eq pendingDelete_eq callResolve_eq
        settle_def callbackCall_def)

lemma getConnectionState_cong:
  "ws s' = ws s \<Longrightarrow> sockets s' = sockets s \<Longrightarrow> connected s' = connected s \<Longrightarrow>
   getConnectionState s' = getConnectionState s"
  by (simp add: getConnectionState_def split: option.splits)

lemma onclose_handle:
  "ws (onclose k c reason s) = ws s \<and> sockets (onclose k c reason s) = sockets s"
  by (simp add: onclose_def Let_def emit_eq stopPing_eq settle_def clearTimer_def)

lemma onerror_handle:
  "ws (onerror k s) = ws s \<and> sockets (onerror k s) = sockets s"
  by (simp add: onerror_def emit_eq clearTimer_def)

lemma connect_reuses_promise: "connectPromise s = Some p \<Longrightarrow> connect s = (p, s)"
  by (simp add: connect_def)

lemma connect_attempts:
  "connectPromise s = None \<Longrightarrow> connectionAttempts (snd (connect s)) = connectionAttempts s + 1"
  by (simp add: connect_def Let_def emit_eq setTimer_def settle_def)

lemma scheduleReconnect_exhausted:
  assumes "reconnectTimer s = None" and "maxReconnectAttempts s \<le> connectionAttempts s"
  shows "scheduleReconnect s = emit (JStr ''max_reconnects'') JUndefined s"
  using assms by (simp add: scheduleReconnect_def)

text \<open>The heartbeat closes the socket only when more than 60000 ms have passed: at exactly
  60000 ms it sends a ping.\<close>

lemma pingTick_at_60s:
  assumes "ws s = Some k" and "readyState (sockets s k) = OPEN"
    and "lastPong s = Some t" and "now s - t = 60000"
  shows "pingTick s = ws_send (JObj [(''type'', JStr ''ping'')]) s"
  using assms by (simp add: pingTick_def)

lemma pingTick_after_60s:
  assumes "ws s = Some k" and "readyState (sockets s k) = OPEN"
    and "lastPong s = Some t" and "t \<noteq> 0" and "now s - t > 60000"
  shows "pingTick s = ws_close k (CodeReason 4000 ''Ping timeout'') s"
  using assms by (simp add: pingTick_def)


text \<open>A falsy JSON value has no properties.\<close>

lemma getp_falsy: "\<not> truthy j \<Longrightarrow> getp j k = JUndefined"
  by (cases j) simp_all

text \<open>
  The socket's \<open>onclose\<close> and \<open>onerror\<close> create no timer and no socket: a close event,
  whatever closed the socket, schedules no reconnection. And \<open>onclose\<close> clears
  \<open>connectPromise\<close> and \<open>connected\<close> for whichever socket \<open>k\<close> it runs, the current one
  or an earlier one.
\<close>

lemma onclose_arms_nothing:
  "reconnectTimer (onclose k c reason s) = reconnectTimer s
   \<and> reactions (onclose k c reason s) = reactions s
   \<and> nextSock (onclose k c reason s) = nextSock s
   \<and> nextTimer (onclose k c reason s) = nextTimer s"
  by (simp add: onclose_def Let_def emit_eq stopPing_eq settle_def clearTimer_def)

lemma onerror_arms_nothing:
  "reconnectTimer (onerror k s) = reconnectTimer s
   \<and> reactions (onerror k s) = reactions s
   \<and> nextSock (onerror k s) = nextSock s
   \<and> nextTimer (onerror k s) = nextTimer s"
  by (simp add: onerror_def emit_eq clearTimer_def)

lemma close_event_schedules_nothing:
  assumes "reactions s = []"
  shows "reconnectTimer (step (WsClose k failed c reason) s) = reconnectTimer s
       \<and> nextTimer (step (WsClose k failed c reason) s) = nextTimer s
       \<and> nextSock (step (WsClose k failed c reason) s) = nextSock s
       \<and> reactions (step (WsClose k failed c reason) s) = []"
  using assms
  by (simp add: step_def microtasks_def onclose_arms_nothing onerror_arms_nothing setReadyState_def)

lemma onclose_clears_promise:
  "connectPromise (onclose k c reason s) = None \<and> \<not> connected (onclose k c reason s)"
  by (simp add: onclose_def Let_def emit_eq stopPing_eq settle_def clearTimer_def)

subsection \<open>The calls of an emit\<close>




lemma unthrown_slots [simp]: "slots (unthrown s) ev = slots s ev"
  by (simp add: unthrown_def slots_def)



lemma forEach_consts [simp]:
  "fuel (forEach n ev i a s) = fuel s"
  "handlerOps (forEach n ev i a s) = handlerOps s"
  "handlerThrows (forEach n ev i a s) = handlerThrows s"
  using rest_forEach [of n ev i a s] by (metis rest_fuel, metis rest_ops, metis rest_throws)

lemma topicPass_consts [simp]:
  "fuel (topicPass ev d s) = fuel s"
  "handlerOps (topicPass ev d s) = handlerOps s"
  "handlerThrows (topicPass ev d s) = handlerThrows s"
  by (cases ev; simp add: topicPass_def)+






lemma passCalls_0 [simp]: "passCalls 0 ev i a s = []"
  by (simp add: passCalls_def)



lemma unsubscribedBy_simps [simp]:
  "unsubscribedBy s ev h [] = False"
  "unsubscribedBy s ev h (c # cs) =
     (Unsubscribe ev h \<in> set (handlerOps s (fst c) (snd c)) \<or> unsubscribedBy s ev h cs)"
  "unsubscribedBy s ev h (cs @ ds) = (unsubscribedBy s ev h cs \<or> unsubscribedBy s ev h ds)"
  by (auto simp: unsubscribedBy_def list_ex_iff)

lemma unsubscribedBy_cong: "handlerOps s' = handlerOps s \<Longrightarrow> unsubscribedBy s' = unsubscribedBy s"
  by (simp add: unsubscribedBy_def fun_eq_iff)

lemma unsubscribedBy_same [simp]:
  "unsubscribedBy (s\<lparr>emitted := x\<rparr>) = unsubscribedBy s"
  "unsubscribedBy (invoke a h s) = unsubscribedBy s"
  "unsubscribedBy (topicPass ev d s) = unsubscribedBy s"
  by (simp_all add: unsubscribedBy_def fun_eq_iff)







lemma forEach_overrun: "overrun s \<Longrightarrow> overrun (forEach n ev i a s)"
proof (induction n arbitrary: i s)
  case 0
  then show ?case by simp
next
  case (Suc n)
  then show ?case by (cases "slots s ev ! i") simp_all
qed





lemma topicPass_overrun: "overrun s \<Longrightarrow> overrun (topicPass ev d s)"
  by (cases ev) (simp_all add: topicPass_def forEach_overrun)



lemma forEach_numeral:
  "forEach (numeral k) ev i a s =
     (if i < length (slots s ev)
      then forEach (pred_numeral k) ev (Suc i) a
             (case slots s ev ! i of None \<Rightarrow> s | Some h \<Rightarrow> invoke a h s)
      else s)"
  by (simp add: numeral_eq_Suc)

lemmas emit_run =
  emit_def handlersFor_def forEach_numeral invoke_def perform_def on_def off_def slots_def
  set_add_def set_delete_def newClient_def Let_def


subsection \<open>Request ids are unique\<close>











subsection \<open>The invariant of the requests\<close>

lemma callsIn_append [simp]: "callsIn (L @ X) p = callsIn L p + callsIn X p"
  by (simp add: callsIn_def)

lemma callsIn_single [simp]: "callsIn [(q, r)] p = (if q = p then 1 else 0)"
  by (simp add: callsIn_def)

lemma callsIn_Nil [simp]: "callsIn [] p = 0"
  by (simp add: callsIn_def)


lemma isIssued_mono: "isIssued rq rid \<Longrightarrow> rq \<le> rq' \<Longrightarrow> isIssued rq' rid"
  by (auto simp: isIssued_def intro: le_trans)










subsection \<open>Tasks that touch no request\<close>

lemma noNew_refl [simp]: "noNew m m"
  by (auto simp: noNew_def)


lemma noNew_remove [simp]: "noNew m m' \<Longrightarrow> noNew m (m'(t := None))"
  by (auto simp: noNew_def)

lemma noNew_dropTimer [simp]: "noNew m m' \<Longrightarrow> noNew m (dropTimer x m')"
  by (auto simp: dropTimer_def split: option.splits)

lemma noNew_add [simp]:
  "noNew m m' \<Longrightarrow> (\<forall>rid n. callback tm \<noteq> RequestTimeout rid n) \<Longrightarrow> noNew m (m'(t \<mapsto> tm))"
  by (auto simp: noNew_def)

lemma noNew_redue [simp]:
  "m t = Some tm \<Longrightarrow> noNew m (m(t \<mapsto> tm\<lparr>due := d\<rparr>))"
  by (auto simp: noNew_def)

lemma connectOnly_simps [simp]:
  "connectOnly []" "connectOnly [(ConnectP k, r)]"
  "connectOnly (X @ Y) = (connectOnly X \<and> connectOnly Y)"
  by (auto simp: connectOnly_def)


lemma quiet_refl [simp]: "quiet s s"
  by (simp add: quiet_def)



lemma moves_refl [simp]: "moves dis s s"
  by (simp add: moves_def)



lemma quiet_stopPing [simp]: "quiet s (stopPing s)"
  by (simp add: quiet_def stopPing_eq)

lemma quiet_startPing [simp]: "quiet s (startPing s)"
  by (simp add: quiet_def startPing_eq heartbeatTimer_def)

lemma quiet_clearTimer [simp]: "quiet s (clearTimer t s)"
  by (simp add: quiet_def clearTimer_def)

lemma quiet_ws_close [simp]: "quiet s (ws_close k a s)"
  by (simp add: quiet_def ws_close_eq)

lemma quiet_ws_send [simp]: "quiet s (ws_send m s)"
  by (simp add: quiet_def ws_send_def Let_def split: option.splits)

lemma quiet_settle_connect [simp]: "quiet s (settle (ConnectP k) r s)"
  by (simp add: quiet_def settle_def)

lemma quiet_getDeviceId [simp]: "quiet s (snd (getDeviceId s))"
  by (simp add: quiet_def getDeviceId_def Let_def)












subsection \<open>Tasks that touch requests\<close>



















subsection \<open>Every run keeps the invariant\<close>








lemma promiseState_calls: "(promiseState s p = None) = (calls s p = 0)"
proof -
  have "(map_of L p = None) = (callsIn L p = 0)" for L :: "(prom \<times> outcome) list"
    by (induction L) (auto simp: callsIn_def)
  then show ?thesis by (simp add: promiseState_def calls_def)
qed



subsection \<open>The outcomes of a pending request\<close>


text \<open>A response with a truthy \<open>ok\<close> resolves the pending request with the payload.\<close>

lemma response_resolves:
  assumes "pendingRequests s rid = Some (Callbacks n)" and "rid \<noteq> []"
    and "getp data ''type'' = JStr ''res''" and "getp data ''id'' = JStr rid"
    and "truthy (getp data ''ok'')"
    and "getp (getp data ''payload'') ''type'' \<noteq> JStr ''hello-ok''"
  shows "handleMessage data p s =
           s\<lparr>pendingRequests := (pendingRequests s)(rid := None),
             settles := settles s @ [(SendP n, Resolved (getp data ''payload''))]\<rparr>"
proof -
  have "\<not> nullish data" "getp data ''type'' \<noteq> JStr ''event''"
    using assms(3) by (auto simp: nullish_def)
  then show ?thesis
    using assms
    by (simp add: handleMessage_def Let_def pendingGet_def pendingDelete_eq callResolve_eq
          deleteKey_def callbackCall_def)
qed

text \<open>
  A response with a falsy \<open>ok\<close> rejects the pending request. With an error object, the
  branch for connect errors rejects with the message (or the code, as a message) and also
  calls the \<open>reject\<close> of the connect promise; without one the request is rejected with
  \<open>Request failed\<close>. Either way the \<open>Error\<close> has no \<open>code\<close>.
\<close>

lemma error_response_rejects:
  assumes "pendingRequests s rid = Some (Callbacks n)"
    and "getp data ''type'' = JStr ''res''" and "getp data ''id'' = JStr rid"
    and "\<not> truthy (getp data ''ok'')" and "truthy (getp data ''error'')"
    and "getp (getp data ''payload'') ''type'' \<noteq> JStr ''hello-ok''"
  shows "handleMessage data p s =
           s\<lparr>pendingRequests := (pendingRequests s)(rid := None),
             settles := settles s @
               [(SendP n, Rejected (Error (js_string (jor (getp (getp data ''error'') ''message'')
                     (jor (getp (getp data ''error'') ''code'') (JStr ''Authentication failed''))))
                   JUndefined)),
                (ConnectP p, Rejected (Error (js_string (jor (getp (getp data ''error'') ''message'')
                     (jor (getp (getp data ''error'') ''code'') (JStr ''Authentication failed''))))
                   JUndefined))]\<rparr>"
proof -
  have "\<not> nullish data" "getp data ''type'' \<noteq> JStr ''event''"
    using assms(2) by (auto simp: nullish_def)
  then show ?thesis
    using assms
    by (simp add: handleMessage_def Let_def pendingGet_def pendingDelete_eq callReject_eq
          deleteKey_def callbackCall_def settle_def)
qed

lemma plain_failure_rejects:
  assumes "pendingRequests s rid = Some (Callbacks n)" and "rid \<noteq> []"
    and "getp data ''type'' = JStr ''res''" and "getp data ''id'' = JStr rid"
    and "\<not> truthy (getp data ''ok'')" and "\<not> truthy (getp data ''error'')"
    and "getp (getp data ''payload'') ''type'' \<noteq> JStr ''hello-ok''"
  shows "handleMessage data p s =
           s\<lparr>pendingRequests := (pendingRequests s)(rid := None),
             settles := settles s @ [(SendP n, Rejected (Error ''Request failed'' JUndefined))]\<rparr>"
proof -
  have "\<not> nullish data" "getp data ''type'' \<noteq> JStr ''event''"
    using assms(3) by (auto simp: nullish_def)
  then show ?thesis
    using assms
    by (simp add: handleMessage_def Let_def pendingGet_def pendingDelete_eq callReject_eq
          deleteKey_def callbackCall_def getp_falsy jor_def)
qed

text \<open>The timeout of a request whose id is still in the map removes the entry and
  rejects; otherwise it does nothing.\<close>

lemma timeout_rejects:
  "requestTimeout rid n s =
     (if pendingRequests s rid = None then s
      else s\<lparr>pendingRequests := (pendingRequests s)(rid := None),
             settles := settles s @ [(SendP n, Rejected (Error ''Request timeout'' JUndefined))]\<rparr>)"
  by (simp add: requestTimeout_def settle_def)

subsection \<open>No task but its firing disarms a request timeout\<close>

lemma careful_refl [simp]: "careful s s"
  by (simp add: careful_def keepsRequests_def)

lemma careful_trans: "careful a b \<Longrightarrow> careful b c \<Longrightarrow> careful a c"
  by (auto simp: careful_def keepsRequests_def)

text \<open>A change that leaves the timers, their counter and the stored identities alone.\<close>

lemma careful_same:
  assumes "timers s' = timers s" and "nextTimer s' = nextTimer s" and "stored s' \<subseteq> stored s"
  shows "careful s s'"
  using assms by (auto simp: careful_def timersOK_def keepsRequests_def)

lemma careful_fields:
  assumes "timers s' = timers s" and "nextTimer s' = nextTimer s"
    and "pingInterval s' = pingInterval s" and "reconnectTimer s' = reconnectTimer s"
    and "\<And>k. sockTimeout (sockets s' k) = sockTimeout (sockets s k)"
  shows "careful s s'"
  by (rule careful_same) (simp_all add: assms stored_def)

lemma careful_emit [simp]: "careful s (emit ev d s)"
  by (rule careful_fields) (simp_all add: emit_eq)

lemma careful_settle [simp]: "careful s (settle p r s)"
  by (rule careful_fields) (simp_all add: settle_def)

lemma careful_ws_close [simp]: "careful s (ws_close k a s)"
  by (rule careful_fields) (simp_all add: ws_close_eq closedBy_def)

lemma careful_ws_send [simp]: "careful s (ws_send m s)"
  by (rule careful_fields) (simp_all add: ws_send_def Let_def split: option.splits)


lemma careful_getDeviceId [simp]: "careful s (snd (getDeviceId s))"
  by (rule careful_fields) (simp_all add: getDeviceId_def Let_def)

text \<open>Clearing a stored timer.\<close>

lemma careful_clear_stored:
  assumes "t \<in> stored s" and "timers s' = (timers s)(t := None)"
    and "nextTimer s' = nextTimer s" and "stored s' \<subseteq> stored s"
  shows "careful s s'"
  using assms by (auto simp: careful_def timersOK_def keepsRequests_def)

lemma careful_stopPing [simp]: "careful s (stopPing s)"
proof (cases "pingInterval s")
  case None
  then show ?thesis by (simp add: stopPing_def)
next
  case (Some t)
  show ?thesis
    by (rule careful_clear_stored [where t = t])
       (use Some in \<open>auto simp: stopPing_eq dropTimer_def stored_def\<close>)
qed


text \<open>Arming a timer that is no request timeout, and storing its identity or not.\<close>

lemma careful_arm_plain:
  assumes "timers s' = (timers s)(nextTimer s \<mapsto> tm)" and "\<not> isRequest (callback tm)"
    and "nextTimer s' = Suc (nextTimer s)" and "stored s' \<subseteq> insert (nextTimer s) (stored s)"
  shows "careful s s'"
  using assms
  by (auto simp: careful_def timersOK_def keepsRequests_def less_Suc_eq subset_iff)


lemma careful_startPing [simp]: "careful s (startPing s)"
proof -
  have a: "careful s (stopPing s)" by simp
  have b: "careful (stopPing s) (startPing s)"
    by (rule careful_arm_plain [where tm = "heartbeatTimer (stopPing s)"])
       (auto simp: startPing_eq stopPing_eq heartbeatTimer_def isRequest_def stored_def)
  show ?thesis using a b by (rule careful_trans)
qed


lemma careful_connect [simp]: "careful s (snd (connect s))"
proof (cases "connectPromise s")
  case (Some p)
  then show ?thesis by (simp add: connect_def)
next
  case None
  let ?s1 = "s\<lparr>nextProm := Suc (nextProm s), connectionAttempts := Suc (connectionAttempts s)\<rparr>"
  let ?s2 = "emit (JStr ''connecting'')
               (JObj [(''attempt'', JNum (int (connectionAttempts ?s1))),
                      (''url'', JStr (getWsUrl ?s1))]) ?s1"
  have a: "careful s ?s1" by (rule careful_fields) simp_all
  have b: "careful ?s1 ?s2" by (rule careful_emit)
  have c: "careful ?s2 (snd (connect s))"
  proof (cases "ctorThrows ?s2 (getWsUrl ?s1)")
    case True
    have "snd (connect s) =
            (settle (ConnectP (nextProm s)) (Rejected (Error ''SyntaxError'' JUndefined))
               (?s2\<lparr>connectPromise := None\<rparr>))\<lparr>connectPromise := Some (nextProm s)\<rparr>"
      using None True by (simp add: connect_def Let_def)
    then show ?thesis
      by (intro careful_fields) (simp_all add: settle_def)
  next
    case False
    have eq: "snd (connect s) =
            (snd (setTimer (ConnectTimeout (nextProm s)) 10000 False
               (?s2\<lparr>ws := Some (nextSock ?s2),
                     sockets := (sockets ?s2)(nextSock ?s2 :=
                        \<lparr>url = getWsUrl ?s1, readyState = CONNECTING, sockPromise = nextProm s,
                         sockTimeout = nextTimer ?s2, closeCalls = [], sent = []\<rparr>),
                     nextSock := Suc (nextSock ?s2)\<rparr>)))\<lparr>connectPromise := Some (nextProm s)\<rparr>"
      using None False by (simp add: connect_def Let_def split: prod.splits)
    show ?thesis
      by (rule careful_arm_plain
            [where tm = "\<lparr>callback = ConnectTimeout (nextProm s), delay = 10000, repeating = False,
                            due = now ?s2 + 10000\<rparr>"])
         (auto simp: eq setTimer_def isRequest_def stored_def)
  qed
  show ?thesis using a b c by (blast intro: careful_trans)
qed

lemma careful_connectTimeout [simp]: "careful s (connectTimeout p s)"
  by (rule careful_fields)
     (simp_all add: connectTimeout_def ws_close_eq closedBy_def settle_def split: option.splits)




lemma careful_pingTick [simp]: "careful s (pingTick s)"
  by (simp add: pingTick_def split: option.splits)

lemma careful_reconnectFired [simp]: "careful s (reconnectFired s)"
proof -
  let ?s0 = "s\<lparr>reconnectTimer := None\<rparr>"
  have a: "careful s ?s0" by (rule careful_same) (auto simp: stored_def)
  have b: "careful ?s0 (snd (connect ?s0))" by (rule careful_connect)
  have c: "careful (snd (connect ?s0)) (reconnectFired s)"
    by (rule careful_fields) (simp_all add: reconnectFired_def split: prod.splits)
  show ?thesis using a b c by (blast intro: careful_trans)
qed



lemma careful_disconnect [simp]: "careful s (disconnect s)"
proof -
  let ?s1 = "stopPing s"
  let ?s2 = "?s1\<lparr>connectionAttempts := 0\<rparr>"
  let ?s3 = "case reconnectTimer ?s2 of
               Some t \<Rightarrow> (clearTimer t ?s2)\<lparr>reconnectTimer := None\<rparr> | None \<Rightarrow> ?s2"
  have a: "careful s ?s1" by simp
  have b: "careful ?s1 ?s2" by (rule careful_fields) simp_all
  have c: "careful ?s2 ?s3"
  proof (cases "reconnectTimer ?s2")
    case None
    then show ?thesis by simp
  next
    case (Some t)
    show ?thesis
      by (rule careful_clear_stored [where t = t])
         (use Some in \<open>auto simp: clearTimer_def stored_def\<close>)
  qed
  have d: "careful ?s3 (disconnect s)"
    by (rule careful_fields)
       (simp_all add: disconnect_def Let_def ws_close_eq closedBy_def split: option.splits)
  show ?thesis using a b c d by (blast intro: careful_trans)
qed

lemma careful_sendConnectRequest [simp]: "careful s (sendConnectRequest s)"
proof -
  let ?s1 = "snd (getDeviceId s)"
  let ?s3 = "?s1\<lparr>requestId := Suc (requestId ?s1),
                  pendingRequests := (pendingRequests ?s1)(fst (nextId ?s1) \<mapsto> NoOps)\<rparr>"
  have a: "careful s ?s1" by simp
  have b: "careful ?s1 ?s3" by (rule careful_fields) simp_all
  have "\<exists>m. sendConnectRequest s = ws_send m ?s3"
    by (auto simp: sendConnectRequest_def nextId_def Let_def split: prod.splits)
  then obtain m where "sendConnectRequest s = ws_send m ?s3" ..
  then have c: "careful ?s3 (sendConnectRequest s)" by simp
  show ?thesis using a b c by (blast intro: careful_trans)
qed


lemma careful_requestTimeout [simp]: "careful s (requestTimeout rid n s)"
  by (rule careful_fields) (simp_all add: requestTimeout_def settle_def)

lemma careful_handleMessage [simp]: "careful s (handleMessage data p s)"
proof -
  let ?payload = "getp data ''payload''" and ?err = "getp data ''error''"
  let ?id = "getp data ''id''"
  consider (null) "nullish data"
    | (challenge) "\<not> nullish data" "getp data ''type'' = JStr ''event''"
        "getp data ''event'' = JStr ''connect.challenge''"
    | (hello) "getp data ''type'' = JStr ''res''" "getp ?payload ''type'' = JStr ''hello-ok''"
    | (error) "\<not> nullish data" "getp data ''type'' = JStr ''res''"
        "getp ?payload ''type'' \<noteq> JStr ''hello-ok''" "\<not> truthy (getp data ''ok'')" "truthy ?err"
    | (regular) "\<not> nullish data" "getp data ''type'' = JStr ''res''"
        "getp ?payload ''type'' \<noteq> JStr ''hello-ok''" "\<not> (\<not> truthy (getp data ''ok'') \<and> truthy ?err)"
        "truthy ?id" "pendingGet s ?id \<noteq> None"
    | (unmatched) "\<not> nullish data" "getp data ''type'' = JStr ''res''"
        "getp ?payload ''type'' \<noteq> JStr ''hello-ok''" "\<not> (\<not> truthy (getp data ''ok'') \<and> truthy ?err)"
        "\<not> (truthy ?id \<and> pendingGet s ?id \<noteq> None)"
    | (event) "\<not> nullish data" "getp data ''type'' = JStr ''event''"
        "getp data ''event'' \<noteq> JStr ''connect.challenge''"
    | (pong) "\<not> nullish data" "getp data ''type'' = JStr ''pong''"
    | (other) "\<not> nullish data" "getp data ''type'' \<noteq> JStr ''res''"
        "getp data ''type'' \<noteq> JStr ''event''" "getp data ''type'' \<noteq> JStr ''pong''"
    by blast
  then show ?thesis
  proof cases
    case null
    then show ?thesis by (simp add: handleMessage_def)
  next
    case challenge
    show ?thesis
    proof (cases "sliceThrows (getp ?payload ''nonce'')")
      case True
      then show ?thesis using challenge by (simp add: handleMessage_def)
    next
      case False
      let ?s1 = "s\<lparr>challengeNonce := getp ?payload ''nonce''\<rparr>"
      let ?s2 = "emit (JStr ''challenge_received'') (JObj [(''nonce'', getp ?payload ''nonce'')]) ?s1"
      have eq: "handleMessage data p s = sendConnectRequest ?s2"
        using challenge False by (simp add: handleMessage_def Let_def)
      have "careful s ?s1" by (rule careful_fields) simp_all
      moreover have "careful ?s1 ?s2" by simp
      moreover have "careful ?s2 (sendConnectRequest ?s2)" by simp
      ultimately show ?thesis
        unfolding eq by (blast intro: careful_trans)
    qed
  next
    case hello
    note eq = handleMessage_hello_eq [OF hello, of p s]
    let ?s1 = "if truthy (getp (getp ?payload ''auth'') ''deviceToken'')
          then s\<lparr>connected := True, connectionAttempts := 0,
                 localStorage := (localStorage s)(''ether-portal-device-token'' \<mapsto>
                    js_string (getp (getp ?payload ''auth'') ''deviceToken''))\<rparr>
          else s\<lparr>connected := True, connectionAttempts := 0\<rparr>"
    have "careful s ?s1" by (rule careful_fields) simp_all
    moreover have "careful ?s1 (startPing ?s1)" by (rule careful_startPing)
    moreover have "careful (startPing ?s1) (helloState data s)"
      unfolding helloState_def helloReady_def by (rule careful_emit)
    moreover have "careful (helloState data s) (handleMessage data p s)"
      unfolding eq by (rule careful_fields) simp_all
    ultimately show ?thesis by (blast intro: careful_trans)
  next
    case error
    let ?E = "Error (js_string (jor (getp ?err ''message'')
                 (jor (getp ?err ''code'') (JStr ''Authentication failed'')))) JUndefined"
    have ne: "getp data ''type'' \<noteq> JStr ''event''" using error by simp
    show ?thesis
    proof (cases "pendingGet s ?id")
      case None
      have "handleMessage data p s = settle (ConnectP p) (Rejected ?E) s"
        using error ne None by (simp add: handleMessage_def Let_def)
      then show ?thesis by simp
    next
      case (Some cb)
      have eq: "handleMessage data p s =
              settle (ConnectP p) (Rejected ?E) (callReject cb ?E (pendingDelete ?id s))"
        using error ne Some by (simp add: handleMessage_def Let_def)
      show ?thesis
        by (rule careful_fields) (simp_all add: eq settle_def callReject_eq pendingDelete_eq)
    qed
  next
    case regular
    have ne: "getp data ''type'' \<noteq> JStr ''event''" using regular by simp
    from regular obtain cb where cb: "pendingGet s ?id = Some cb" by auto
    let ?E = "Error (js_string (jor (getp ?err ''message'') (JStr ''Request failed'')))
                (getp ?err ''code'')"
    show ?thesis
    proof (cases "truthy (getp data ''ok'')")
      case True
      have eq: "handleMessage data p s = callResolve cb ?payload (pendingDelete ?id s)"
        using regular ne cb True by (simp add: handleMessage_def Let_def)
      show ?thesis
        by (rule careful_fields) (simp_all add: eq callResolve_eq pendingDelete_eq)
    next
      case False
      have eq: "handleMessage data p s = callReject cb ?E (pendingDelete ?id s)"
        using regular ne cb False by (simp add: handleMessage_def Let_def)
      show ?thesis
        by (rule careful_fields) (simp_all add: eq callReject_eq pendingDelete_eq)
    qed
  next
    case unmatched
    have ne: "getp data ''type'' \<noteq> JStr ''event''" "getp data ''type'' \<noteq> JStr ''pong''"
      using unmatched by simp_all
    have "handleMessage data p s = s"
      using unmatched ne by (auto simp: handleMessage_def Let_def)
    then show ?thesis by simp
  next
    case event
    have ne: "getp data ''type'' \<noteq> JStr ''res''" using event by simp
    let ?s1 = "emit (getp data ''event'') ?payload s"
    have "\<exists>s2. handleMessage data p s = s2 \<and> careful ?s1 s2"
      using event ne by (simp add: handleMessage_def Let_def)
    then have "careful ?s1 (handleMessage data p s)" by simp
    then show ?thesis by (rule careful_trans [OF careful_emit])
  next
    case pong
    have ne: "getp data ''type'' \<noteq> JStr ''res''" "getp data ''type'' \<noteq> JStr ''event''"
      using pong by simp_all
    have "handleMessage data p s = s\<lparr>lastPong := Some (now s)\<rparr>"
      using pong ne by (simp add: handleMessage_def Let_def)
    then show ?thesis by (simp add: careful_fields)
  next
    case other
    then have "handleMessage data p s = s"
      by (simp add: handleMessage_def Let_def)
    then show ?thesis by simp
  qed
qed




lemma timerFires_fired:
  "timerFires t s =
     (case timers s t of
        None \<Rightarrow> s
      | Some tm \<Rightarrow> if due tm \<le> now s then runCallback (callback tm) (fired t s) else s)"
  by (simp add: timerFires_def fired_def split: option.splits)









subsection \<open>A request is settled once unless the client disconnects\<close>













lemma awaited_issued:
  "coreInv (coreOf s) \<Longrightarrow> awaited rid n t d s \<Longrightarrow> isIssued (requestId s) rid"
  by (auto simp: coreInv_def coreOf_def awaited_def)




subsection \<open>What changes the attempt counter\<close>

lemma counts_refl [simp]: "counts s s"
  by (simp add: counts_def)

lemma counts_trans: "counts a b \<Longrightarrow> counts b c \<Longrightarrow> counts a c"
  by (simp add: counts_def)

lemma counts_same: "connectionAttempts s' = connectionAttempts s \<Longrightarrow> counts s s'"
  by (simp add: counts_def)

lemma counts_emit [simp]: "counts s (emit ev d s)"
  by (simp add: counts_def emit_eq)

lemma connect_counter:
  "connectionAttempts (snd (connect s))
     = (if connectPromise s = None then connectionAttempts s + 1 else connectionAttempts s)"
  by (cases "connectPromise s") (simp_all add: connect_attempts connect_reuses_promise)

lemma counts_connect [simp]: "counts s (snd (connect s))"
  by (simp add: counts_def connect_counter)

lemma counts_scheduleReconnect [simp]: "counts s (scheduleReconnect s)"
  by (simp add: scheduleReconnect_def setTimer_def counts_def emit_eq)

lemma counts_fold_schedule: "counts s (fold (\<lambda>p. scheduleReconnect) ps s)"
proof (induction ps arbitrary: s)
  case Nil
  show ?case by simp
next
  case (Cons p ps)
  show ?case
    using counts_trans [OF counts_scheduleReconnect Cons.IH] by simp
qed

lemma counts_microtasks [simp]: "counts s (microtasks s)"
proof -
  let ?s1 = "s\<lparr>reactions := filter (\<lambda>p. promiseState s (ConnectP p) = None) (reactions s)\<rparr>"
  have "counts s ?s1" by (simp add: counts_def)
  moreover have "counts ?s1 (microtasks s)"
    unfolding microtasks_def by (rule counts_fold_schedule)
  ultimately show ?thesis by (rule counts_trans)
qed

lemma counts_send [simp]: "counts s (snd (send name params s))"
  by (rule counts_same)
     (simp add: send_def Let_def settle_def nextId_def ws_send_def setTimer_def split: option.splits)

lemma counts_sendConnectRequest [simp]: "counts s (sendConnectRequest s)"
  by (rule counts_same)
     (simp add: sendConnectRequest_def getDeviceId_def nextId_def ws_send_def Let_def
        split: option.splits prod.splits)

lemma counts_onopen [simp]: "counts s (onopen k s)"
  by (simp add: counts_def onopen_def emit_eq clearTimer_def)

lemma counts_onerror [simp]: "counts s (onerror k s)"
  by (simp add: counts_def onerror_def emit_eq clearTimer_def)

lemma counts_onclose [simp]: "counts s (onclose k c reason s)"
  by (simp add: counts_def onclose_def Let_def emit_eq clearTimer_def stopPing_eq settle_def)

lemma counts_timerFires [simp]: "counts s (timerFires t s)"
proof (cases "timers s t")
  case None
  then show ?thesis by (simp add: timerFires_fired)
next
  case (Some tm)
  have f: "counts s (fired t s)"
    by (rule counts_same) (simp add: fired_def clearTimer_def split: option.splits)
  have "counts (fired t s) (runCallback (callback tm) (fired t s))"
  proof (cases "callback tm")
    case (ConnectTimeout p)
    then show ?thesis
      by (simp add: runCallback_def counts_def connectTimeout_def ws_close_eq settle_def
            split: option.splits)
  next
    case (RequestTimeout rid n)
    then show ?thesis by (simp add: runCallback_def counts_def timeout_rejects)
  next
    case PingInterval
    then show ?thesis
      by (simp add: runCallback_def counts_def pingTick_def ws_close_eq ws_send_def Let_def
            split: option.splits)
  next
    case ReconnectTimeout
    let ?s0 = "(fired t s)\<lparr>reconnectTimer := None\<rparr>"
    have a: "counts (fired t s) ?s0" by (simp add: counts_def)
    have b: "counts (snd (connect ?s0)) (reconnectFired (fired t s))"
      by (rule counts_same) (simp add: reconnectFired_def split: prod.splits)
    have "counts (fired t s) (reconnectFired (fired t s))"
      by (rule counts_trans [OF a counts_trans [OF counts_connect b]])
    then show ?thesis
      using ReconnectTimeout by (simp add: runCallback_def)
  qed
  then show ?thesis
    using Some f by (auto simp: timerFires_fired intro: counts_trans)
qed

lemma counts_handleMessage:
  assumes "\<not> helloOk data"
  shows "counts s (handleMessage data p s)"
proof -
  let ?payload = "getp data ''payload''" and ?err = "getp data ''error''"
  let ?id = "getp data ''id''"
  consider (null) "nullish data"
    | (challenge) "\<not> nullish data" "getp data ''type'' = JStr ''event''"
        "getp data ''event'' = JStr ''connect.challenge''"
    | (error) "\<not> nullish data" "getp data ''type'' = JStr ''res''"
        "getp ?payload ''type'' \<noteq> JStr ''hello-ok''" "\<not> truthy (getp data ''ok'')" "truthy ?err"
    | (regular) "\<not> nullish data" "getp data ''type'' = JStr ''res''"
        "getp ?payload ''type'' \<noteq> JStr ''hello-ok''" "\<not> (\<not> truthy (getp data ''ok'') \<and> truthy ?err)"
        "truthy ?id" "pendingGet s ?id \<noteq> None"
    | (unmatched) "\<not> nullish data" "getp data ''type'' = JStr ''res''"
        "getp ?payload ''type'' \<noteq> JStr ''hello-ok''" "\<not> (\<not> truthy (getp data ''ok'') \<and> truthy ?err)"
        "\<not> (truthy ?id \<and> pendingGet s ?id \<noteq> None)"
    | (event) "\<not> nullish data" "getp data ''type'' = JStr ''event''"
        "getp data ''event'' \<noteq> JStr ''connect.challenge''"
    | (pong) "\<not> nullish data" "getp data ''type'' = JStr ''pong''"
    | (other) "\<not> nullish data" "getp data ''type'' \<noteq> JStr ''res''"
        "getp data ''type'' \<noteq> JStr ''event''" "getp data ''type'' \<noteq> JStr ''pong''"
    using assms unfolding helloOk_def by blast
  then show ?thesis
  proof cases
    case null
    then show ?thesis by (simp add: handleMessage_def)
  next
    case challenge
    show ?thesis
    proof (cases "sliceThrows (getp ?payload ''nonce'')")
      case True
      then show ?thesis using challenge by (simp add: handleMessage_def)
    next
      case False
      let ?s1 = "s\<lparr>challengeNonce := getp ?payload ''nonce''\<rparr>"
      let ?s2 = "emit (JStr ''challenge_received'') (JObj [(''nonce'', getp ?payload ''nonce'')]) ?s1"
      have eq: "handleMessage data p s = sendConnectRequest ?s2"
        using challenge False by (simp add: handleMessage_def Let_def)
      have "counts s ?s1" by (simp add: counts_def)
      moreover have "counts ?s1 ?s2" by simp
      moreover have "counts ?s2 (sendConnectRequest ?s2)" by simp
      ultimately show ?thesis
        unfolding eq by (blast intro: counts_trans)
    qed
  next
    case error
    let ?E = "Error (js_string (jor (getp ?err ''message'')
                 (jor (getp ?err ''code'') (JStr ''Authentication failed'')))) JUndefined"
    have ne: "getp data ''type'' \<noteq> JStr ''event''" using error by simp
    show ?thesis
    proof (cases "pendingGet s ?id")
      case None
      have "handleMessage data p s = settle (ConnectP p) (Rejected ?E) s"
        using error ne None by (simp add: handleMessage_def Let_def)
      then show ?thesis by (simp add: counts_def settle_def)
    next
      case (Some cb)
      have eq: "handleMessage data p s =
              settle (ConnectP p) (Rejected ?E) (callReject cb ?E (pendingDelete ?id s))"
        using error ne Some by (simp add: handleMessage_def Let_def)
      show ?thesis
        by (rule counts_same) (simp add: eq settle_def callReject_eq pendingDelete_eq)
    qed
  next
    case regular
    have ne: "getp data ''type'' \<noteq> JStr ''event''" using regular by simp
    from regular obtain cb where cb: "pendingGet s ?id = Some cb" by auto
    let ?E = "Error (js_string (jor (getp ?err ''message'') (JStr ''Request failed'')))
                (getp ?err ''code'')"
    show ?thesis
    proof (cases "truthy (getp data ''ok'')")
      case True
      have eq: "handleMessage data p s = callResolve cb ?payload (pendingDelete ?id s)"
        using regular ne cb True by (simp add: handleMessage_def Let_def)
      show ?thesis
        by (rule counts_same) (simp add: eq callResolve_eq pendingDelete_eq)
    next
      case False
      have eq: "handleMessage data p s = callReject cb ?E (pendingDelete ?id s)"
        using regular ne cb False by (simp add: handleMessage_def Let_def)
      show ?thesis
        by (rule counts_same) (simp add: eq callReject_eq pendingDelete_eq)
    qed
  next
    case unmatched
    have ne: "getp data ''type'' \<noteq> JStr ''event''" "getp data ''type'' \<noteq> JStr ''pong''"
      using unmatched by simp_all
    have "handleMessage data p s = s"
      using unmatched ne by (auto simp: handleMessage_def Let_def)
    then show ?thesis by simp
  next
    case event
    have ne: "getp data ''type'' \<noteq> JStr ''res''" using event by simp
    let ?s1 = "emit (getp data ''event'') ?payload s"
    have "\<exists>s2. handleMessage data p s = s2 \<and> counts ?s1 s2"
      using event ne by (simp add: handleMessage_def Let_def)
    then have "counts ?s1 (handleMessage data p s)" by simp
    then show ?thesis by (rule counts_trans [OF counts_emit])
  next
    case pong
    have ne: "getp data ''type'' \<noteq> JStr ''res''" "getp data ''type'' \<noteq> JStr ''event''"
      using pong by simp_all
    have "handleMessage data p s = s\<lparr>lastPong := Some (now s)\<rparr>"
      using pong ne by (simp add: handleMessage_def Let_def)
    then show ?thesis by (simp add: counts_def)
  next
    case other
    then have "handleMessage data p s = s"
      by (simp add: handleMessage_def Let_def)
    then show ?thesis by simp
  qed
qed

lemma counts_task:
  assumes "\<not> resets e"
  shows "counts s (task e s)"
proof (cases e)
  case (Configure c)
  then show ?thesis by (simp add: configure_def counts_def)
next
  case Disconnect
  then show ?thesis using assms by simp
next
  case (On ev h)
  then show ?thesis by (simp add: on_def counts_def)
next
  case (Off ev h)
  then show ?thesis by (simp add: off_def counts_def split: option.splits)
next
  case (WsOpen k)
  have "counts s (onopen k (setReadyState k OPEN s))"
    by (rule counts_trans [OF _ counts_onopen]) (simp add: counts_def setReadyState_def)
  then show ?thesis using WsOpen by simp
next
  case (WsMessage k m)
  show ?thesis
  proof (cases m)
    case None
    then show ?thesis using WsMessage by (simp add: onmessage_def)
  next
    case (Some data)
    then have "\<not> helloOk data" using assms WsMessage by simp
    then show ?thesis using WsMessage Some by (simp add: onmessage_def counts_handleMessage)
  qed
next
  case (WsClose k failed c reason)
  let ?s1 = "setReadyState k CLOSED s"
  have r: "counts s ?s1" by (simp add: counts_def setReadyState_def)
  have a: "counts s (onclose k c reason ?s1)"
    by (rule counts_trans [OF r counts_onclose])
  have b: "counts s (onclose k c reason (onerror k ?s1))"
    by (rule counts_trans [OF r counts_trans [OF counts_onerror counts_onclose]])
  show ?thesis using WsClose a b by simp
next
  case (Elapse d)
  then show ?thesis by (simp add: counts_def)
qed simp_all

lemma counter_kept:
  "\<not> resets e \<Longrightarrow> connectionAttempts s \<le> connectionAttempts (step e s)"
  using counts_trans [OF counts_task counts_microtasks, of e s]
  by (simp add: step_def counts_def)

subsection \<open>Further facts about send, disconnect and runs\<close>





lemma disconnect_noop:
  "(disconnect s = s) =
     (ws s = None \<and> \<not> connected s \<and> pendingRequests s = Map.empty \<and> reconnectTimer s = None
      \<and> pingInterval s = None \<and> connectionAttempts s = 0 \<and> connectPromise s = None)"
proof
  assume e: "disconnect s = s"
  have "ws (disconnect s) = None" "\<not> connected (disconnect s)"
    "pendingRequests (disconnect s) = Map.empty" "reconnectTimer (disconnect s) = None"
    "pingInterval (disconnect s) = None" "connectionAttempts (disconnect s) = 0"
    "connectPromise (disconnect s) = None"
    by (simp_all add: disconnect_eq)
  then show "ws s = None \<and> \<not> connected s \<and> pendingRequests s = Map.empty \<and> reconnectTimer s = None
      \<and> pingInterval s = None \<and> connectionAttempts s = 0 \<and> connectPromise s = None"
    unfolding e by simp
next
  assume "ws s = None \<and> \<not> connected s \<and> pendingRequests s = Map.empty \<and> reconnectTimer s = None
      \<and> pingInterval s = None \<and> connectionAttempts s = 0 \<and> connectPromise s = None"
  then show "disconnect s = s"
    by (simp add: disconnect_eq dropTimer_def closeCurrent_def)
qed

subsection \<open>Concrete runs\<close>

text \<open>Each run is evaluated once, its state bound by \<open>let\<close>; the theorems below take the
  facts from here.\<close>

lemma opened_eval:
  "let s = run [Connect, WsOpen 0] demoClient in
     ws s = Some 0 \<and> closeCalls (sockets s 0) = [] \<and> readyState (sockets s 0) = OPEN
     \<and> promiseState s (ConnectP 0) = None \<and> nextSock s = 1
     \<and> pendingGet s (getp (helloFrame ''srv-1'') ''id'') = None"
  by (simp add: model_defs cong: let_weak_cong)

lemma requestInFlight_eval:
  "let s = run (sessionUp @ [Send ''cron.run'' (JObj [(''jobId'', JStr ''nightly'')])]) demoClient;
       s' = disconnect s
   in pendingRequests s ''req_2_1700000000000'' = Some (Callbacks 1)
      \<and> promiseState s (SendP 1) = None
      \<and> pendingRequests s' ''req_2_1700000000000'' = None
      \<and> settles s' = settles s
      \<and> promiseState s' (SendP 1) = None"
  by (simp add: model_defs cong: let_weak_cong)

lemma refused_eval:
  "let s = run [Connect, WsClose 0 True 1006 []] demoClient in
     ws s = Some 0 \<and> getConnectionState s = ''disconnected''
     \<and> readyState (sockets s 0) = CLOSED"
  by (simp add: model_defs cong: let_weak_cong)

lemma silent_eval:
  "let s = run (sessionUp @ [Elapse 25000, TimerFires 2, Elapse 25000, TimerFires 2,
                       Elapse 25000, TimerFires 2, WsClose 0 False 4000 ''Ping timeout'',
                       Elapse 30000]) demoClient
   in closeCalls (sockets s 0) = [CodeReason 4000 ''Ping timeout'']
      \<and> sent (sockets s 0) = [connectRequest ''req_1_1700000000000'' ''ether-portal-1x2y3z''
            (JObj [(''token'', JStr ''secret'')]) demoBrowser,
            JObj [(''type'', JStr ''ping'')], JObj [(''type'', JStr ''ping'')]]
      \<and> reconnectTimer s = None \<and> dom (timers s) = {} \<and> reactions s = []
      \<and> connectionAttempts s = 0 \<and> nextSock s = 1"
  by (simp add: model_defs cong: let_weak_cong)

lemma staleClose_eval:
  "let s1 = run [Connect, Elapse 10000, TimerFires 1, Connect] demoClient;
       s2 = step (WsClose 0 True 1006 []) s1;
       r = connect s2
   in connectPromise s1 = Some 1 \<and> ws s1 = Some 1
      \<and> promiseState s1 (ConnectP 0) = Some (Rejected (Error ''Connection timeout'' JUndefined))
      \<and> promiseState s2 (ConnectP 1) = None
      \<and> ws s2 = Some 1 \<and> readyState (sockets s2 1) = CONNECTING
      \<and> connectPromise s2 = None
      \<and> fst r = 2 \<and> ws (snd r) = Some 2 \<and> nextSock (snd r) = 3
      \<and> readyState (sockets (snd r) 1) = CONNECTING
      \<and> readyState (sockets (snd r) 2) = CONNECTING"
  by (simp add: model_defs cong: let_weak_cong)

lemma exhausted_eval:
  "let s = run [ScheduleReconnect,
          Elapse 1000, TimerFires 1, WsClose 0 True 1006 [],
          Elapse 2000, TimerFires 3, WsClose 1 True 1006 [],
          Elapse 4000, TimerFires 5, WsClose 2 True 1006 [],
          Elapse 8000, TimerFires 7, WsClose 3 True 1006 [],
          Elapse 16000, TimerFires 9, WsClose 4 True 1006 []] demoClient;
       r = connect s
   in connectionAttempts s = 5 \<and> maxReconnectAttempts s = 5 \<and> nextSock s = 5
      \<and> reconnectTimer s = None \<and> connectPromise s = None
      \<and> filter (\<lambda>e. fst e = JStr ''max_reconnects'') (emitted s)
          = [(JStr ''max_reconnects'', JUndefined)]
      \<and> getConnectionState s = ''disconnected''
      \<and> connectionAttempts (snd r) = 6"
  by (simp add: model_defs cong: let_weak_cong)

lemma errorAnswered_eval:
  "let s = run (sessionUp @ [Send ''cron.run'' (JObj [(''jobId'', JStr ''nightly'')]),
                       WsMessage 0 (Some (errorFrame ''req_2_1700000000000''))]) demoClient
   in promiseState s (SendP 1) = Some (Rejected (Error ''no such job'' JUndefined))
      \<and> calls s (SendP 1) = 1
      \<and> pendingRequests s ''req_2_1700000000000'' = None"
  by (simp add: model_defs calls_def callsIn_def cong: let_weak_cong)


lemma throwing_eval:
  "let s = emit (JStr ''connected'') JNull throwingClient in
     invoked s = [(1, Plain JNull), (2, Plain JNull), (3, Wild (JStr ''connected'') JNull)]
     \<and> reported s = [(1, Plain JNull)] \<and> \<not> overrun s
     \<and> registered throwingClient ''connected'' = [1, 2]
     \<and> registered throwingClient ''*'' = [3]"
  by (simp add: emit_run throwingClient_def registered_def cong: let_weak_cong)


lemma subscribing_eval:
  "let s = emit (JStr ''connected'') JNull subscribingClient in
     invoked s = [(1, Plain JNull), (2, Plain JNull), (4, Plain JNull),
                  (3, Wild (JStr ''connected'') JNull)]
     \<and> \<not> overrun s
     \<and> registered subscribingClient ''connected'' = [1, 2]
     \<and> registered s ''connected'' = [1, 2, 4]"
  by (simp add: emit_run subscribingClient_def registered_def cong: let_weak_cong)



lemma armedExhausted_eval:
  "let s = run [ScheduleReconnect,
          Connect, WsClose 0 True 1006 [], Connect, WsClose 1 True 1006 [],
          Connect, WsClose 2 True 1006 [], Connect, WsClose 3 True 1006 [],
          Connect, WsClose 4 True 1006 []] demoClient
   in connectionAttempts s = 5 \<and> maxReconnectAttempts s = 5 \<and> reconnectTimer s = Some 1
      \<and> armedDelay s = Some 1000
      \<and> scheduleReconnect s = s
      \<and> filter (\<lambda>e. fst e = JStr ''max_reconnects'') (emitted s) = []"
  by (simp add: model_defs armedDelay_def cong: let_weak_cong)

lemma closedPending_eval:
  "let s = run (sessionUp @ [Send ''cron.run'' (JObj [(''jobId'', JStr ''nightly'')]),
                       WsClose 0 False 1006 []]) demoClient;
       s1 = run [Elapse 30000, TimerFires 3] s;
       s2 = run [Disconnect, Elapse 30000, TimerFires 3] s
   in getConnectionState s = ''disconnected'' \<and> ws s = Some 0
      \<and> pendingRequests s ''req_2_1700000000000'' = Some (Callbacks 1)
      \<and> ws (disconnect s) = None
      \<and> pendingRequests (disconnect s) ''req_2_1700000000000'' = None
      \<and> calls s1 (SendP 1) = 1
      \<and> promiseState s1 (SendP 1) = Some (Rejected (Error ''Request timeout'' JUndefined))
      \<and> calls s2 (SendP 1) = 0 \<and> promiseState s2 (SendP 1) = None"
  by (simp add: model_defs calls_def callsIn_def cong: let_weak_cong)

subsection \<open>The event dispatcher\<close>




subsection \<open>The hello-ok response\<close>



subsection \<open>The error response\<close>

text \<open>
  Claim C6, at a request that the gateway answers with an error. The session authenticates,
  \<open>send('cron.run', ...)\<close> registers the request \<open>req_2_1700000000000\<close>, and the frame
  \<open>{type: 'res', id: 'req_2_1700000000000', ok: false, error: {code: 'NOT_FOUND',
  message: 'no such job'}}\<close> arrives. The branch for connect errors takes the frame first:
  the promise is rejected with the message and without the code.
\<close>

theorem error_response_drops_code:
  "promiseState errorAnswered (SendP 1) = Some (Rejected (Error ''no such job'' JUndefined))
   \<and> calls errorAnswered (SendP 1) = 1
   \<and> pendingRequests errorAnswered ''req_2_1700000000000'' = None"
  using errorAnswered_eval unfolding Let_def errorAnswered_def .

subsection \<open>The reconnection delay\<close>

lemma reconnectDelay_cap: "5 \<le> n \<Longrightarrow> reconnectDelay n = 30000"
proof -
  assume "5 \<le> n"
  then have "(2::nat) ^ 5 \<le> 2 ^ n" by (intro power_increasing) simp_all
  then have "(30000::nat) \<le> 1000 * 2 ^ n" by simp
  then show ?thesis by (simp add: reconnectDelay_def)
qed

text \<open>
  Claim C4. When \<open>scheduleReconnect\<close> arms its timer (none is armed and the attempt counter
  \<open>n\<close> is below the maximum), the delay is \<open>min(1000 * 2^n, 30000)\<close> ms: 1000, 2000, 4000,
  8000 and 16000 for the counters 0 to 4, and 30000 from 5 on.
\<close>

theorem scheduleReconnect_delay:
  assumes "reconnectTimer s = None" and "connectionAttempts s < maxReconnectAttempts s"
  shows "armedDelay (scheduleReconnect s) = Some (min (1000 * 2 ^ connectionAttempts s) 30000)
       \<and> map reconnectDelay [0, 1, 2, 3, 4] = [1000, 2000, 4000, 8000, 16000]
       \<and> (5 \<le> connectionAttempts s \<longrightarrow> armedDelay (scheduleReconnect s) = Some 30000)"
proof -
  have a: "armedDelay (scheduleReconnect s) = Some (reconnectDelay (connectionAttempts s))"
    using assms by (simp add: scheduleReconnect_def armedDelay_def setTimer_def)
  have b: "map reconnectDelay [0, 1, 2, 3, 4] = [1000, 2000, 4000, 8000, 16000]"
    by (simp add: reconnectDelay_def)
  show ?thesis using a b reconnectDelay_cap by (auto simp: reconnectDelay_def)
qed

theorem scheduleReconnect_delay_witness:
  "armedDelay (scheduleReconnect
      (demoClient\<lparr>connectionAttempts := 7, maxReconnectAttempts := 10\<rparr>)) = Some 30000"
  using scheduleReconnect_delay
    [of "demoClient\<lparr>connectionAttempts := 7, maxReconnectAttempts := 10\<rparr>"]
  by (simp add: demoClient_def demoPatch_def freshClient_def configure_def newClient_def)


subsection \<open>disconnect\<close>

text \<open>
  Against claim C3 as stated. With the request \<open>req_2_1700000000000\<close> pending,
  \<open>disconnect()\<close> removes the entry and calls neither callback; the promise stays pending.
  And \<open>disconnect()\<close> in the disconnected state is no no-op: when the socket has closed
  with the request in flight, the client reports \<open>disconnected\<close>, and the timeout of the
  request would reject it 30 s after it was sent; a \<open>disconnect()\<close> in that state drops the
  handle and the entry, and the timeout then rejects nothing.
\<close>

theorem disconnect_rejects_nothing:
  "pendingRequests requestInFlight ''req_2_1700000000000'' = Some (Callbacks 1)
   \<and> promiseState requestInFlight (SendP 1) = None
   \<and> pendingRequests (disconnect requestInFlight) ''req_2_1700000000000'' = None
   \<and> settles (disconnect requestInFlight) = settles requestInFlight
   \<and> promiseState (disconnect requestInFlight) (SendP 1) = None
   \<and> getConnectionState closedPending = ''disconnected''
   \<and> ws closedPending = Some 0
   \<and> pendingRequests closedPending ''req_2_1700000000000'' = Some (Callbacks 1)
   \<and> ws (disconnect closedPending) = None
   \<and> pendingRequests (disconnect closedPending) ''req_2_1700000000000'' = None
   \<and> promiseState (run [Elapse 30000, TimerFires 3] closedPending) (SendP 1)
       = Some (Rejected (Error ''Request timeout'' JUndefined))
   \<and> promiseState (run [Disconnect, Elapse 30000, TimerFires 3] closedPending) (SendP 1) = None"
proof -
  have "pendingRequests requestInFlight ''req_2_1700000000000'' = Some (Callbacks 1)
   \<and> promiseState requestInFlight (SendP 1) = None
   \<and> pendingRequests (disconnect requestInFlight) ''req_2_1700000000000'' = None
   \<and> settles (disconnect requestInFlight) = settles requestInFlight
   \<and> promiseState (disconnect requestInFlight) (SendP 1) = None"
    using requestInFlight_eval unfolding Let_def requestInFlight_def .
  moreover have "getConnectionState closedPending = ''disconnected''
   \<and> ws closedPending = Some 0
   \<and> pendingRequests closedPending ''req_2_1700000000000'' = Some (Callbacks 1)
   \<and> ws (disconnect closedPending) = None
   \<and> pendingRequests (disconnect closedPending) ''req_2_1700000000000'' = None
   \<and> promiseState (run [Elapse 30000, TimerFires 3] closedPending) (SendP 1)
       = Some (Rejected (Error ''Request timeout'' JUndefined))
   \<and> promiseState (run [Disconnect, Elapse 30000, TimerFires 3] closedPending) (SendP 1) = None"
    using closedPending_eval unfolding Let_def closedPending_def by blast
  ultimately show ?thesis by blast
qed

text \<open>
  Claim C3, as the code has it. \<open>disconnect()\<close> returns in every state: it cancels the
  heartbeat and the reconnect timer, empties the pending-request map, calls
  \<open>close(1000, 'User disconnect')\<close> on the current socket and drops the handle, so that the
  client is disconnected, with the attempt counter at zero. It calls no \<open>resolve\<close> or
  \<open>reject\<close> and emits nothing. A second call changes nothing; in general \<open>disconnect()\<close>
  changes nothing exactly when there is nothing for it to clear: no handle, no pending
  request, no heartbeat, no reconnect timer, no connect promise, the client not marked
  connected and the attempt counter at zero.
\<close>

theorem disconnect_effects:
  "pingInterval (disconnect s) = None
   \<and> reconnectTimer (disconnect s) = None
   \<and> (\<forall>t. timers (disconnect s) t =
          (if pingInterval s = Some t \<or> reconnectTimer s = Some t then None else timers s t))
   \<and> pendingRequests (disconnect s) = Map.empty
   \<and> settles (disconnect s) = settles s
   \<and> (\<forall>k. ws s = Some k \<longrightarrow>
          sockets (disconnect s) k = closedBy (CodeReason 1000 ''User disconnect'') (sockets s k))
   \<and> (\<forall>k. ws s \<noteq> Some k \<longrightarrow> sockets (disconnect s) k = sockets s k)
   \<and> ws (disconnect s) = None
   \<and> \<not> connected (disconnect s)
   \<and> connectionAttempts (disconnect s) = 0
   \<and> getConnectionState (disconnect s) = ''disconnected''
   \<and> emitted (disconnect s) = emitted s
   \<and> invoked (disconnect s) = invoked s
   \<and> disconnect (disconnect s) = disconnect s
   \<and> (disconnect s = s) =
       (ws s = None \<and> \<not> connected s \<and> pendingRequests s = Map.empty \<and> reconnectTimer s = None
        \<and> pingInterval s = None \<and> connectionAttempts s = 0 \<and> connectPromise s = None)"
proof -
  have idem: "disconnect (disconnect s) = disconnect s"
    by (simp add: disconnect_eq dropTimer_def closeCurrent_def)
  have tm: "\<forall>t. timers (disconnect s) t =
          (if pingInterval s = Some t \<or> reconnectTimer s = Some t then None else timers s t)"
    by (auto simp: disconnect_eq dropTimer_def split: option.splits)
  have sk: "\<forall>k. ws s = Some k \<longrightarrow>
          sockets (disconnect s) k = closedBy (CodeReason 1000 ''User disconnect'') (sockets s k)"
    and sk': "\<forall>k. ws s \<noteq> Some k \<longrightarrow> sockets (disconnect s) k = sockets s k"
    by (auto simp: disconnect_eq closeCurrent_def split: option.splits)
  have "pingInterval (disconnect s) = None \<and> reconnectTimer (disconnect s) = None
    \<and> pendingRequests (disconnect s) = Map.empty \<and> settles (disconnect s) = settles s
    \<and> ws (disconnect s) = None \<and> \<not> connected (disconnect s)
    \<and> connectionAttempts (disconnect s) = 0
    \<and> getConnectionState (disconnect s) = ''disconnected''
    \<and> emitted (disconnect s) = emitted s \<and> invoked (disconnect s) = invoked s"
    by (simp add: disconnect_eq getConnectionState_def)
  then show ?thesis
    using idem tm sk sk' disconnect_noop [of s] by blast
qed

theorem disconnect_effects_witness:
  "ws (run [Connect, WsOpen 0] demoClient) = Some 0
   \<and> closeCalls (sockets (disconnect (run [Connect, WsOpen 0] demoClient)) 0)
       = [CodeReason 1000 ''User disconnect'']
   \<and> readyState (sockets (disconnect (run [Connect, WsOpen 0] demoClient)) 0) = CLOSING
   \<and> sockets (disconnect (run [Connect, WsOpen 0] demoClient)) 1
       = sockets (run [Connect, WsOpen 0] demoClient) 1
   \<and> getConnectionState (disconnect (run [Connect, WsOpen 0] demoClient)) = ''disconnected''
   \<and> disconnect (run [Connect, WsOpen 0] demoClient) \<noteq> run [Connect, WsOpen 0] demoClient"
  using disconnect_effects [of "run [Connect, WsOpen 0] demoClient"]
    opened_eval [unfolded Let_def]
  by (simp add: closedBy_def)

subsection \<open>The connection state and the transport handle\<close>

text \<open>
  Against claim C8 as stated: after the gateway refuses the connection, the client still
  holds the handle of the closed socket while \<open>getConnectionState()\<close> reports
  \<open>disconnected\<close>.
\<close>

theorem handle_kept_after_close:
  "ws refusedRun = Some 0 \<and> getConnectionState refusedRun = ''disconnected''
   \<and> readyState (sockets refusedRun 0) = CLOSED"
  using refused_eval unfolding Let_def refusedRun_def .

text \<open>
  Claim C8, as the code has it. \<open>getConnectionState()\<close> reports \<open>disconnected\<close> exactly
  when the client holds no handle or the socket it holds is closed; so with any other
  report a handle is held. \<open>disconnect()\<close> drops the handle; the close event of the current
  socket keeps it.
\<close>

theorem disconnected_state:
  "(getConnectionState s = ''disconnected'')
      = (case ws s of None \<Rightarrow> True | Some k \<Rightarrow> readyState (sockets s k) = CLOSED)
   \<and> getConnectionState (disconnect s) = ''disconnected''
   \<and> ws (disconnect s) = None
   \<and> (ws s = Some k \<and> k < nextSock s \<and> readyState (sockets s k) \<noteq> CLOSED \<longrightarrow>
        ws (task (WsClose k failed c reason) s) = Some k
        \<and> getConnectionState (task (WsClose k failed c reason) s) = ''disconnected'')"
proof -
  have a: "(getConnectionState s = ''disconnected'')
      = (case ws s of None \<Rightarrow> True | Some k \<Rightarrow> readyState (sockets s k) = CLOSED)"
    by (simp add: getConnectionState_def split: option.splits readyState.splits)
  have b: "getConnectionState (disconnect s) = ''disconnected''" "ws (disconnect s) = None"
    by (simp_all add: getConnectionState_def disconnect_eq)
  have c: "ws (task (WsClose k failed c reason) s) = Some k
        \<and> getConnectionState (task (WsClose k failed c reason) s) = ''disconnected''"
    if "ws s = Some k" "k < nextSock s" "readyState (sockets s k) \<noteq> CLOSED"
    using that
    by (simp add: onclose_handle onerror_handle setReadyState_def getConnectionState_def)
  show ?thesis using a b c by blast
qed

theorem disconnected_state_witness:
  "ws (run [Connect, WsOpen 0] demoClient) = Some 0
   \<and> getConnectionState (run [Connect, WsOpen 0] demoClient) \<noteq> ''disconnected''
   \<and> ws (task (WsClose 0 False 1001 ''going away'') (run [Connect, WsOpen 0] demoClient)) = Some 0
   \<and> getConnectionState (task (WsClose 0 False 1001 ''going away'')
        (run [Connect, WsOpen 0] demoClient)) = ''disconnected''"
  using disconnected_state [of "run [Connect, WsOpen 0] demoClient" 0 False 1001 "''going away''"]
    opened_eval [unfolded Let_def]
  by simp

subsection \<open>The heartbeat\<close>

text \<open>
  Claim C7, in a session where no pong arrives. The heartbeat sends a ping at 25 s and at
  50 s; at 75 s it calls \<open>close(4000, 'Ping timeout')\<close>, once. After the close event
  no reconnect timer is armed, no timer at all is left and no promise reaction waits:
  \<open>onclose\<close> does not call \<open>scheduleReconnect\<close> (for every state, by
  \<open>close_event_schedules_nothing\<close>), and no socket is opened again.
\<close>

theorem heartbeat_close_schedules_nothing:
  "closeCalls (sockets silentRun 0) = [CodeReason 4000 ''Ping timeout'']
   \<and> sent (sockets silentRun 0) = [connectRequest ''req_1_1700000000000'' ''ether-portal-1x2y3z''
            (JObj [(''token'', JStr ''secret'')]) demoBrowser,
            JObj [(''type'', JStr ''ping'')], JObj [(''type'', JStr ''ping'')]]
   \<and> reconnectTimer silentRun = None \<and> dom (timers silentRun) = {} \<and> reactions silentRun = []
   \<and> connectionAttempts silentRun = 0 \<and> nextSock silentRun = 1"
  using silent_eval unfolding Let_def silentRun_def .

subsection \<open>Concurrent connect calls\<close>

text \<open>
  Claim C2, at a close event that arrives late. The first attempt times out: its callback
  closes the socket and rejects the promise. \<open>connect()\<close> then opens socket 1 and returns
  promise 1. The close event of socket 0 runs the first attempt's \<open>onclose\<close>, which clears
  \<open>connectPromise\<close>, although it holds the second attempt's promise. That attempt is still
  outstanding (promise 1 pending, socket 1 connecting), and the next \<open>connect()\<close> opens
  socket 2 and returns promise 2: two transports are connecting at once. (While
  \<open>connectPromise\<close> is set, \<open>connect()\<close> returns it and changes nothing, by
  \<open>connect_reuses_promise\<close>; \<open>onclose\<close> clears it for any socket, by
  \<open>onclose_clears_promise\<close>.)
\<close>

theorem stale_close_opens_second_transport:
  "connectPromise secondAttempt = Some 1 \<and> ws secondAttempt = Some 1
   \<and> promiseState secondAttempt (ConnectP 0)
       = Some (Rejected (Error ''Connection timeout'' JUndefined))
   \<and> promiseState staleClose (ConnectP 1) = None
   \<and> ws staleClose = Some 1 \<and> readyState (sockets staleClose 1) = CONNECTING
   \<and> connectPromise staleClose = None
   \<and> fst (connect staleClose) = 2 \<and> ws (snd (connect staleClose)) = Some 2
   \<and> nextSock (snd (connect staleClose)) = 3
   \<and> readyState (sockets (snd (connect staleClose)) 1) = CONNECTING
   \<and> readyState (sockets (snd (connect staleClose)) 2) = CONNECTING"
  using staleClose_eval unfolding Let_def staleClose_def secondAttempt_def .

subsection \<open>Exhausted reconnection\<close>

text \<open>
  Against claim C5 as stated. After five failed reconnections the attempt counter is at the
  maximum and \<open>max_reconnects\<close> was emitted once; an explicit \<open>connect()\<close> then raises the
  counter to 6 and does not reset it. And when the counter reaches the maximum while a
  reconnect timer is armed (\<open>connect()\<close> was called five times before the timer fired),
  \<open>scheduleReconnect()\<close> returns at once: it emits nothing.
\<close>

theorem connect_keeps_counting:
  "connectionAttempts exhaustedRun = 5 \<and> maxReconnectAttempts exhaustedRun = 5
   \<and> nextSock exhaustedRun = 5
   \<and> reconnectTimer exhaustedRun = None \<and> connectPromise exhaustedRun = None
   \<and> filter (\<lambda>e. fst e = JStr ''max_reconnects'') (emitted exhaustedRun)
       = [(JStr ''max_reconnects'', JUndefined)]
   \<and> getConnectionState exhaustedRun = ''disconnected''
   \<and> connectionAttempts (snd (connect exhaustedRun)) = 6
   \<and> connectionAttempts armedExhausted = 5 \<and> maxReconnectAttempts armedExhausted = 5
   \<and> reconnectTimer armedExhausted = Some 1
   \<and> scheduleReconnect armedExhausted = armedExhausted
   \<and> filter (\<lambda>e. fst e = JStr ''max_reconnects'') (emitted armedExhausted) = []"
proof -
  have "connectionAttempts exhaustedRun = 5 \<and> maxReconnectAttempts exhaustedRun = 5
   \<and> nextSock exhaustedRun = 5
   \<and> reconnectTimer exhaustedRun = None \<and> connectPromise exhaustedRun = None
   \<and> filter (\<lambda>e. fst e = JStr ''max_reconnects'') (emitted exhaustedRun)
       = [(JStr ''max_reconnects'', JUndefined)]
   \<and> getConnectionState exhaustedRun = ''disconnected''
   \<and> connectionAttempts (snd (connect exhaustedRun)) = 6"
    using exhausted_eval unfolding Let_def exhaustedRun_def .
  moreover have "connectionAttempts armedExhausted = 5 \<and> maxReconnectAttempts armedExhausted = 5
   \<and> reconnectTimer armedExhausted = Some 1
   \<and> scheduleReconnect armedExhausted = armedExhausted
   \<and> filter (\<lambda>e. fst e = JStr ''max_reconnects'') (emitted armedExhausted) = []"
    using armedExhausted_eval unfolding Let_def armedExhausted_def by blast
  ultimately show ?thesis by blast
qed

text \<open>
  Claim C5, as the code has it. With the attempt counter at or above the maximum,
  \<open>scheduleReconnect()\<close> arms no timer: it does nothing when a reconnect timer is armed,
  and otherwise emits \<open>max_reconnects\<close>, once; the timers, the connection state and the
  counter stay as they are. \<open>connect()\<close> does not reset the counter: a call that starts an
  attempt adds one to it, and a call that returns the stored promise leaves it. No task
  lowers the counter but \<open>disconnect()\<close> and a hello-ok response, which set it to zero.
\<close>

theorem max_reconnects_terminal:
  assumes "maxReconnectAttempts s \<le> connectionAttempts s"
  shows "scheduleReconnect s =
           (if reconnectTimer s = None then emit (JStr ''max_reconnects'') JUndefined s else s)
       \<and> emitted (emit (JStr ''max_reconnects'') JUndefined s)
           = emitted s @ [(JStr ''max_reconnects'', JUndefined)]
       \<and> timers (scheduleReconnect s) = timers s
       \<and> reconnectTimer (scheduleReconnect s) = reconnectTimer s
       \<and> getConnectionState (scheduleReconnect s) = getConnectionState s
       \<and> connectionAttempts (scheduleReconnect s) = connectionAttempts s
       \<and> connectionAttempts (snd (connect s'))
           = (if connectPromise s' = None then connectionAttempts s' + 1
              else connectionAttempts s')
       \<and> (\<not> resets e \<longrightarrow> connectionAttempts s' \<le> connectionAttempts (step e s'))
       \<and> connectionAttempts (disconnect s') = 0
       \<and> (helloOk data \<longrightarrow> connectionAttempts (handleMessage data p s') = 0)"
proof -
  have eq: "scheduleReconnect s =
           (if reconnectTimer s = None then emit (JStr ''max_reconnects'') JUndefined s else s)"
    using assms by (simp add: scheduleReconnect_def)
  have b: "connectionAttempts (handleMessage data p s') = 0" if "helloOk data"
    using that by (simp add: helloOk_def handleMessage_hello_eq helloState_eq)
  have c: "connectionAttempts (disconnect s') = 0"
    by (simp add: disconnect_eq)
  have d: "getConnectionState (scheduleReconnect s) = getConnectionState s"
    by (rule getConnectionState_cong) (simp_all add: eq emit_eq)
  have f: "timers (scheduleReconnect s) = timers s"
    "reconnectTimer (scheduleReconnect s) = reconnectTimer s"
    "connectionAttempts (scheduleReconnect s) = connectionAttempts s"
    "emitted (emit (JStr ''max_reconnects'') JUndefined s)
           = emitted s @ [(JStr ''max_reconnects'', JUndefined)]"
    by (simp_all add: eq emit_eq)
  show ?thesis
    using eq b c d f connect_counter [of s'] counter_kept [of e s'] by blast
qed

theorem max_reconnects_terminal_witness:
  "maxReconnectAttempts exhaustedRun \<le> connectionAttempts exhaustedRun
   \<and> emitted (scheduleReconnect exhaustedRun)
      = emitted exhaustedRun @ [(JStr ''max_reconnects'', JUndefined)]
   \<and> reconnectTimer (scheduleReconnect exhaustedRun) = None
   \<and> connectionAttempts (snd (connect exhaustedRun)) = 6
   \<and> \<not> resets (Elapse 5)
   \<and> 5 \<le> connectionAttempts (step (Elapse 5) exhaustedRun)
   \<and> helloOk (helloFrame ''srv-1'')
   \<and> connectionAttempts (handleMessage (helloFrame ''srv-1'') 5 exhaustedRun) = 0"
proof -
  have ev: "connectionAttempts exhaustedRun = 5" "maxReconnectAttempts exhaustedRun = 5"
    "reconnectTimer exhaustedRun = None" "connectPromise exhaustedRun = None"
    using exhausted_eval unfolding Let_def exhaustedRun_def by blast+
  have h: "helloOk (helloFrame ''srv-1'')" by (simp add: helloOk_def helloFrame_def)
  have "maxReconnectAttempts exhaustedRun \<le> connectionAttempts exhaustedRun"
    using ev by simp
  note th = max_reconnects_terminal [OF this, of exhaustedRun "Elapse 5" "helloFrame ''srv-1''" 5]
  from th have c0: "scheduleReconnect exhaustedRun
      = emit (JStr ''max_reconnects'') JUndefined exhaustedRun"
    using ev by simp
  from th have c1: "emitted (emit (JStr ''max_reconnects'') JUndefined exhaustedRun)
      = emitted exhaustedRun @ [(JStr ''max_reconnects'', JUndefined)]"
    and c2: "reconnectTimer (scheduleReconnect exhaustedRun) = reconnectTimer exhaustedRun"
    and c3: "connectionAttempts (snd (connect exhaustedRun))
           = (if connectPromise exhaustedRun = None then connectionAttempts exhaustedRun + 1
              else connectionAttempts exhaustedRun)"
    and c4: "\<not> resets (Elapse 5) \<longrightarrow>
       connectionAttempts exhaustedRun \<le> connectionAttempts (step (Elapse 5) exhaustedRun)"
    and c5: "helloOk (helloFrame ''srv-1'') \<longrightarrow>
       connectionAttempts (handleMessage (helloFrame ''srv-1'') 5 exhaustedRun) = 0"
    by blast+
  show ?thesis using c0 c1 c2 c3 c4 c5 ev h by simp
qed

subsection \<open>The outcome of a request\<close>




end
